theory Spec2Isabelle
  imports Complex_Main
begin

section \<open>JavaScript values\<close>

text \<open>
  The values that reach the numeric code of \<^verbatim>\<open>src/utils/mathUtils.ts\<close> and the drag
  handlers of \<^verbatim>\<open>src/App.tsx\<close> are numbers and, at run time, \<^verbatim>\<open>undefined\<close> (the
  \<^verbatim>\<open>x\<close> of a point built from a missing array element). A number is a real, \<^verbatim>\<open>NaN\<close>,
  \<^verbatim>\<open>Infinity\<close> or \<^verbatim>\<open>-Infinity\<close>. The operators below compute the exact result on finite
  numbers; the rounding and the overflow of IEEE doubles are added by \<open>fl\<close> further down.
  The sign of zero is outside this model (a zero divisor counts as \<^verbatim>\<open>+0\<close>).
\<close>

datatype jsval = Undefined | Num real | NaN | PosInf | NegInf

instantiation jsval :: "{plus, uminus, minus, times, inverse}"
begin

fun plus_jsval :: "jsval \<Rightarrow> jsval \<Rightarrow> jsval" where
  "plus_jsval (Num a) (Num b) = Num (a + b)"
| "plus_jsval (Num a) PosInf = PosInf"
| "plus_jsval (Num a) NegInf = NegInf"
| "plus_jsval PosInf (Num b) = PosInf"
| "plus_jsval NegInf (Num b) = NegInf"
| "plus_jsval PosInf PosInf = PosInf"
| "plus_jsval NegInf NegInf = NegInf"
| "plus_jsval _ _ = NaN"

fun uminus_jsval :: "jsval \<Rightarrow> jsval" where
  "uminus_jsval (Num a) = Num (- a)"
| "uminus_jsval PosInf = NegInf"
| "uminus_jsval NegInf = PosInf"
| "uminus_jsval _ = NaN"

definition minus_jsval :: "jsval \<Rightarrow> jsval \<Rightarrow> jsval" where
  "minus_jsval a b = a + (- b)"

fun times_jsval :: "jsval \<Rightarrow> jsval \<Rightarrow> jsval" where
  "times_jsval (Num a) (Num b) = Num (a * b)"
| "times_jsval (Num a) PosInf = (if a = 0 then NaN else if 0 < a then PosInf else NegInf)"
| "times_jsval (Num a) NegInf = (if a = 0 then NaN else if 0 < a then NegInf else PosInf)"
| "times_jsval PosInf (Num b) = (if b = 0 then NaN else if 0 < b then PosInf else NegInf)"
| "times_jsval NegInf (Num b) = (if b = 0 then NaN else if 0 < b then NegInf else PosInf)"
| "times_jsval PosInf PosInf = PosInf"
| "times_jsval PosInf NegInf = NegInf"
| "times_jsval NegInf PosInf = NegInf"
| "times_jsval NegInf NegInf = PosInf"
| "times_jsval _ _ = NaN"

fun divide_jsval :: "jsval \<Rightarrow> jsval \<Rightarrow> jsval" where
  "divide_jsval (Num a) (Num b) =
     (if b \<noteq> 0 then Num (a / b)
      else if a = 0 then NaN else if 0 < a then PosInf else NegInf)"
| "divide_jsval (Num a) PosInf = Num 0"
| "divide_jsval (Num a) NegInf = Num 0"
| "divide_jsval PosInf (Num b) = (if b < 0 then NegInf else PosInf)"
| "divide_jsval NegInf (Num b) = (if b < 0 then PosInf else NegInf)"
| "divide_jsval _ _ = NaN"

definition inverse_jsval :: "jsval \<Rightarrow> jsval" where
  "inverse_jsval a = divide (Num 1) a"

instance ..

end

text \<open>\<^verbatim>\<open>a || b\<close>: \<^verbatim>\<open>undefined\<close>, \<^verbatim>\<open>NaN\<close> and zero are falsy.\<close>

fun truthy :: "jsval \<Rightarrow> bool" where
  "truthy (Num a) = (a \<noteq> 0)"
| "truthy PosInf = True"
| "truthy NegInf = True"
| "truthy _ = False"

definition js_or :: "jsval \<Rightarrow> jsval \<Rightarrow> jsval" where
  "js_or a b = (if truthy a then a else b)"

text \<open>\<^verbatim>\<open>a < b\<close> on numbers; a comparison with \<^verbatim>\<open>NaN\<close> or \<^verbatim>\<open>undefined\<close> is false.\<close>

fun js_less :: "jsval \<Rightarrow> jsval \<Rightarrow> bool" where
  "js_less (Num a) (Num b) = (a < b)"
| "js_less (Num a) PosInf = True"
| "js_less NegInf (Num b) = True"
| "js_less NegInf PosInf = True"
| "js_less _ _ = False"

section \<open>Points and arrays\<close>

text \<open>\<^verbatim>\<open>interface Point { x: number; y: number }\<close>\<close>

record point =
  x :: jsval
  y :: jsval

text \<open>
  A JavaScript array of points. An entry \<open>None\<close> reads as \<^verbatim>\<open>undefined\<close>: a hole left by
  an assignment beyond the end. Reading past the end gives \<^verbatim>\<open>undefined\<close> too, and reading
  a property of \<^verbatim>\<open>undefined\<close> throws a TypeError.
\<close>

type_synonym points = "point option list"

datatype error = TypeError

definition elem :: "points \<Rightarrow> nat \<Rightarrow> point option" where
  "elem ps i = (if i < length ps then ps ! i else None)"

section \<open>calculateDerivative\<close>

text \<open>The body of the loop of \<^verbatim>\<open>calculateDerivative\<close> up to the assignment of \<^verbatim>\<open>slope\<close>.\<close>

definition slope_at :: "points \<Rightarrow> nat \<Rightarrow> error + jsval" where
  "slope_at ps i =
     (if i = 0 then
        (case (elem ps (i + 1), elem ps i) of
           (Some b, Some a) \<Rightarrow> Inr ((y b - y a) / (x b - x a))
         | _ \<Rightarrow> Inl TypeError)
      else if i = length ps - 1 then
        (case (elem ps i, elem ps (i - 1)) of
           (Some b, Some a) \<Rightarrow> Inr ((y b - y a) / (x b - x a))
         | _ \<Rightarrow> Inl TypeError)
      else
        (case (elem ps (i + 1), elem ps (i - 1)) of
           (Some b, Some a) \<Rightarrow> Inr ((y b - y a) / (x b - x a))
         | _ \<Rightarrow> Inl TypeError))"

function deriv_loop :: "points \<Rightarrow> nat \<Rightarrow> points \<Rightarrow> error + points" where
  "deriv_loop ps i derivative =
     (if i < length ps then
        (case slope_at ps i of
           Inl e \<Rightarrow> Inl e
         | Inr slope \<Rightarrow>
             (case elem ps i of
                None \<Rightarrow> Inl TypeError
              | Some p \<Rightarrow> deriv_loop ps (i + 1) (derivative @ [Some \<lparr>x = x p, y = slope\<rparr>])))
      else Inr derivative)"
  by pat_completeness auto
termination
  by (relation "measure (\<lambda>(ps, i, derivative). length ps - i)") auto

declare deriv_loop.simps [simp del]

definition calculateDerivative :: "points \<Rightarrow> error + points" where
  "calculateDerivative ps = (if length ps < 2 then Inr [] else deriv_loop ps 0 [])"

section \<open>calculateIntegral\<close>

function integ_loop :: "points \<Rightarrow> nat \<Rightarrow> jsval \<Rightarrow> points \<Rightarrow> error + points" where
  "integ_loop ps i accumulatedArea integral =
     (if i < length ps then
        (case (elem ps i, elem ps (i - 1)) of
           (Some b, Some a) \<Rightarrow>
             (let dx = x b - x a;
                  avgHeight = (y b + y a) / Num 2;
                  area = accumulatedArea + avgHeight * dx
              in integ_loop ps (i + 1) area (integral @ [Some \<lparr>x = x b, y = area\<rparr>]))
         | _ \<Rightarrow> Inl TypeError)
      else Inr integral)"
  by pat_completeness auto
termination
  by (relation "measure (\<lambda>(ps, i, accumulatedArea, integral). length ps - i)") auto

declare integ_loop.simps [simp del]

text \<open>The default parameter \<^verbatim>\<open>initialC = 0\<close> applies when the argument is \<^verbatim>\<open>undefined\<close>.\<close>

definition calculateIntegral :: "points \<Rightarrow> jsval \<Rightarrow> error + points" where
  "calculateIntegral ps initialC =
     (if length ps < 1 then Inr []
      else
        (let accumulatedArea = (if initialC = Undefined then Num 0 else initialC)
         in case elem ps 0 of
              None \<Rightarrow> Inl TypeError
            | Some p \<Rightarrow> integ_loop ps 1 accumulatedArea [Some \<lparr>x = x p, y = accumulatedArea\<rparr>]))"

section \<open>generateFunctionPoints\<close>

text \<open>
  The loop counter \<^verbatim>\<open>i\<close> runs through 0, 1, 2, ... and is compared with the number
  \<^verbatim>\<open>steps\<close>; with \<^verbatim>\<open>steps = Infinity\<close> the loop does not end, which is the value \<open>None\<close>.
\<close>

partial_function (option) gen_loop ::
  "(jsval \<Rightarrow> jsval) \<Rightarrow> jsval \<Rightarrow> jsval \<Rightarrow> jsval \<Rightarrow> nat \<Rightarrow> points \<Rightarrow> points option" where
  "gen_loop func minX stepSize steps i pts =
     (if js_less (Num (real i)) steps then
        gen_loop func minX stepSize steps (i + 1)
          (pts @ [Some \<lparr>x = minX + Num (real i) * stepSize,
                         y = func (minX + Num (real i) * stepSize)\<rparr>])
      else Some pts)"

declare gen_loop.simps [code]

definition generateFunctionPoints ::
  "(jsval \<Rightarrow> jsval) \<Rightarrow> jsval \<Rightarrow> jsval \<Rightarrow> jsval \<Rightarrow> points option" where
  "generateFunctionPoints func minX maxX steps =
     gen_loop func minX ((maxX - minX) / (steps - Num 1)) steps 0 []"

section \<open>The arithmetic of IEEE 754 doubles\<close>









section \<open>The drag handlers of App\<close>

record app_state =
  functionPoints :: points
  derivativePoints :: points
  integralPoints :: points

text \<open>
  \<^verbatim>\<open>arr[index]\<close> for an integer \<^verbatim>\<open>index\<close>: a negative index names a property that the
  fresh copy \<^verbatim>\<open>[...prev]\<close> does not have.
\<close>

definition array_get :: "points \<Rightarrow> int \<Rightarrow> point option" where
  "array_get ps index = (if 0 \<le> index then elem ps (nat index) else None)"

text \<open>
  \<^verbatim>\<open>arr[index] = v\<close>: inside the array the element is replaced; from the end on, the
  array grows to \<^verbatim>\<open>index + 1\<close> elements and the ones in between are holes; an index that
  is negative or not below \<open>2^32 - 1\<close> sets a named property and leaves the elements and
  the length as they are.
\<close>

definition array_set :: "points \<Rightarrow> int \<Rightarrow> point \<Rightarrow> points" where
  "array_set ps index v =
     (if 0 \<le> index \<and> index < 4294967295 then
        (if nat index < length ps then ps[nat index := Some v]
         else ps @ replicate (nat index - length ps) None @ [Some v])
      else ps)"

text \<open>\<^verbatim>\<open>{ ...p, y: newY }\<close>: spreading \<^verbatim>\<open>undefined\<close> contributes no property.\<close>

definition spread_y :: "point option \<Rightarrow> jsval \<Rightarrow> point" where
  "spread_y p newY = (case p of None \<Rightarrow> \<lparr>x = Undefined, y = newY\<rparr> | Some q \<Rightarrow> q\<lparr>y := newY\<rparr>)"

text \<open>
  The first two statements of each handler:
  \<^verbatim>\<open>const next = [...prev]; next[index] = { ...next[index], y: newY };\<close>
\<close>

definition edit_point :: "points \<Rightarrow> int \<Rightarrow> jsval \<Rightarrow> points" where
  "edit_point prev index newY = array_set prev index (spread_y (array_get prev index) newY)"

text \<open>
  A handler returns the state after its \<^verbatim>\<open>setFunctionPoints\<close>, or the error it throws.
  \<^verbatim>\<open>handleFunctionDrag\<close> has no statement that can throw.
\<close>

definition handleFunctionDrag :: "app_state \<Rightarrow> int \<Rightarrow> jsval \<Rightarrow> error + app_state" where
  "handleFunctionDrag s index newY =
     (let next = edit_point (functionPoints s) index newY
      in Inr (s\<lparr>functionPoints := next\<rparr>))"

text \<open>\<^verbatim>\<open>functionPoints[0]?.y || 0\<close>\<close>

definition startY :: "points \<Rightarrow> jsval" where
  "startY fps = js_or (case elem fps 0 of None \<Rightarrow> Undefined | Some p \<Rightarrow> y p) (Num 0)"

definition handleDerivativeDrag :: "app_state \<Rightarrow> int \<Rightarrow> jsval \<Rightarrow> error + app_state" where
  "handleDerivativeDrag s index newY =
     (let modifiedDerivative = edit_point (derivativePoints s) index newY
      in case calculateIntegral modifiedDerivative (startY (functionPoints s)) of
           Inl e \<Rightarrow> Inl e
         | Inr reconstructedFunction \<Rightarrow> Inr (s\<lparr>functionPoints := reconstructedFunction\<rparr>))"

definition handleIntegralDrag :: "app_state \<Rightarrow> int \<Rightarrow> jsval \<Rightarrow> error + app_state" where
  "handleIntegralDrag s index newY =
     (let modifiedIntegral = edit_point (integralPoints s) index newY
      in case calculateDerivative modifiedIntegral of
           Inl e \<Rightarrow> Inl e
         | Inr reconstructedFunction \<Rightarrow> Inr (s\<lparr>functionPoints := reconstructedFunction\<rparr>))"

section \<open>Point sequences of the specification\<close>

text \<open>
  A point sequence whose coordinates are real numbers, as an array without holes, and the
  strictly increasing \<open>x\<close>-values of the data model.
\<close>

definition seq :: "(real \<times> real) list \<Rightarrow> points" where
  "seq s = map (\<lambda>(a, b). Some \<lparr>x = Num a, y = Num b\<rparr>) s"

definition increasing_x :: "(real \<times> real) list \<Rightarrow> bool" where
  "increasing_x s = sorted_wrt (<) (map fst s)"

text \<open>An array without holes.\<close>

definition dense :: "points \<Rightarrow> bool" where
  "dense ps = list_all (\<lambda>p. p \<noteq> None) ps"

text \<open>The \<open>x\<close>-values of an array, position by position.\<close>

definition x_values :: "points \<Rightarrow> jsval option list" where
  "x_values ps = map (map_option x) ps"

text \<open>\<^verbatim>\<open>calculateIntegral(calculateDerivative(points), C)\<close>\<close>

definition integrate_derivative :: "points \<Rightarrow> jsval \<Rightarrow> error + points" where
  "integrate_derivative ps C =
     (case calculateDerivative ps of Inl e \<Rightarrow> Inl e | Inr d \<Rightarrow> calculateIntegral d C)"

text \<open>The samples lie on the line \<open>y = a * x + b\<close>.\<close>

definition on_line :: "real \<Rightarrow> real \<Rightarrow> (real \<times> real) list \<Rightarrow> bool" where
  "on_line a b s = list_all (\<lambda>p. snd p = a * fst p + b) s"

text \<open>
  The difference quotient of the samples \<open>j\<close> and \<open>i\<close>, and the finite difference at
  index \<open>i\<close>: forward at the first index, backward at the last, central in between.
\<close>

definition diff_quot :: "(real \<times> real) list \<Rightarrow> nat \<Rightarrow> nat \<Rightarrow> real" where
  "diff_quot s j i = (snd (s ! j) - snd (s ! i)) / (fst (s ! j) - fst (s ! i))"

definition fin_diff :: "(real \<times> real) list \<Rightarrow> nat \<Rightarrow> real" where
  "fin_diff s i =
     (if i = 0 then diff_quot s 1 0
      else if i = length s - 1 then diff_quot s i (i - 1)
      else diff_quot s (i + 1) (i - 1))"

text \<open>
  The area of the trapezoid between the samples \<open>i - 1\<close> and \<open>i\<close>, and the sum of the
  areas up to sample \<open>k\<close>.
\<close>

definition trapezoid :: "(real \<times> real) list \<Rightarrow> nat \<Rightarrow> real" where
  "trapezoid s i = ((snd (s ! i) + snd (s ! (i - 1))) / 2) * (fst (s ! i) - fst (s ! (i - 1)))"

fun cum_area :: "(real \<times> real) list \<Rightarrow> nat \<Rightarrow> real" where
  "cum_area s 0 = 0"
| "cum_area s (Suc k) = cum_area s k + trapezoid s (Suc k)"

text \<open>Sample data.\<close>

definition parabola3 :: "(real \<times> real) list" where
  "parabola3 = [(0, 0), (1, 1), (2, 4)]"

definition single_point :: "(real \<times> real) list" where
  "single_point = [(5, 7)]"

definition constant2 :: "(real \<times> real) list" where
  "constant2 = [(0, 1), (1, 1)]"

definition line2 :: "(real \<times> real) list" where
  "line2 = [(1, 1), (2, 2)]"


definition zigzag3 :: "(real \<times> real) list" where
  "zigzag3 = [(2, 1), (1, 3), (3, 0)]"

text \<open>Sample states of the application.\<close>

definition parabola_state :: app_state where
  "parabola_state =
     \<lparr>functionPoints = seq parabola3,
      derivativePoints = seq [(0, 1), (1, 2), (2, 3)],
      integralPoints = seq [(0, 0), (1, 1 / 2), (2, 3)]\<rparr>"

definition empty_primary_state :: app_state where
  "empty_primary_state =
     \<lparr>functionPoints = [], derivativePoints = seq constant2, integralPoints = []\<rparr>"

definition infinite_primary_state :: app_state where
  "infinite_primary_state =
     \<lparr>functionPoints = [Some \<lparr>x = Num 0, y = PosInf\<rparr>],
      derivativePoints = seq constant2, integralPoints = []\<rparr>"

definition parabola_points :: "point list" where
  "parabola_points = [\<lparr>x = Num 0, y = Num 0\<rparr>, \<lparr>x = Num 1, y = Num 1\<rparr>, \<lparr>x = Num 2, y = Num 4\<rparr>]"


section \<open>Arrays without holes\<close>

lemma dense_nth: "dense ps \<Longrightarrow> i < length ps \<Longrightarrow> \<exists>p. ps ! i = Some p"
  by (auto simp: dense_def list_all_length)

lemma dense_elem: "dense ps \<Longrightarrow> i < length ps \<Longrightarrow> \<exists>p. elem ps i = Some p"
  by (auto simp: elem_def dest: dense_nth)

lemma slope_at_dense:
  assumes "dense ps" "2 \<le> length ps" "i < length ps"
  shows "\<exists>v. slope_at ps i = Inr v"
proof -
  from assms obtain p0 where "elem ps i = Some p0" using dense_elem by blast
  moreover from assms have "i \<noteq> length ps - 1 \<Longrightarrow> \<exists>p. elem ps (i + 1) = Some p" by (intro dense_elem) auto
  moreover from assms have "i \<noteq> 0 \<Longrightarrow> \<exists>p. elem ps (i - 1) = Some p" by (intro dense_elem) auto
  ultimately show ?thesis using assms
    by (auto simp: slope_at_def)
qed

lemma deriv_loop_dense:
  assumes "dense ps" "2 \<le> length ps"
  shows "i \<le> length ps \<Longrightarrow>
    \<exists>out. deriv_loop ps i acc = Inr (acc @ out) \<and> length out = length ps - i \<and>
      (\<forall>k < length out. \<exists>p v. ps ! (i + k) = Some p \<and> slope_at ps (i + k) = Inr v \<and>
            out ! k = Some \<lparr>x = x p, y = v\<rparr>)"
proof (induction "length ps - i" arbitrary: i acc)
  case 0
  then show ?case by (subst deriv_loop.simps) simp
next
  case (Suc n)
  then have lt: "i < length ps" by simp
  from slope_at_dense[OF assms lt] obtain v where v: "slope_at ps i = Inr v" by blast
  from dense_nth[OF assms(1) lt] obtain p where p: "ps ! i = Some p" by blast
  define e where "e = Some \<lparr>x = x p, y = v\<rparr>"
  have "n = length ps - Suc i" "Suc i \<le> length ps" using Suc(2) lt by simp_all
  from Suc(1)[OF this, of "acc @ [e]"]
  obtain out where out: "deriv_loop ps (Suc i) (acc @ [e]) = Inr ((acc @ [e]) @ out)"
     "length out = length ps - Suc i"
     "\<forall>k < length out. \<exists>p v. ps ! (Suc i + k) = Some p \<and> slope_at ps (Suc i + k) = Inr v \<and>
            out ! k = Some \<lparr>x = x p, y = v\<rparr>"
    by blast
  have "deriv_loop ps i acc = Inr (acc @ (e # out))"
    using lt v p out(1) by (subst deriv_loop.simps) (simp add: elem_def e_def)
  moreover have "length (e # out) = length ps - i" using out(2) lt by simp
  moreover have "\<forall>k < length (e # out). \<exists>p' v'. ps ! (i + k) = Some p' \<and> slope_at ps (i + k) = Inr v' \<and>
            (e # out) ! k = Some \<lparr>x = x p', y = v'\<rparr>"
  proof (intro allI impI)
    fix k assume "k < length (e # out)"
    then show "\<exists>p' v'. ps ! (i + k) = Some p' \<and> slope_at ps (i + k) = Inr v' \<and>
            (e # out) ! k = Some \<lparr>x = x p', y = v'\<rparr>"
      using p v out(3) by (cases k) (auto simp: e_def)
  qed
  ultimately show ?case by blast
qed


lemma Num_minus [simp]: "Num a - Num b = Num (a - b)"
  by (simp add: minus_jsval_def)

lemma length_seq [simp]: "length (seq s) = length s"
  by (simp add: seq_def)

lemma nth_seq: "i < length s \<Longrightarrow> seq s ! i = Some \<lparr>x = Num (fst (s ! i)), y = Num (snd (s ! i))\<rparr>"
  by (simp add: seq_def case_prod_unfold)

lemma elem_seq: "i < length s \<Longrightarrow> elem (seq s) i = Some \<lparr>x = Num (fst (s ! i)), y = Num (snd (s ! i))\<rparr>"
  by (simp add: elem_def nth_seq)

lemma dense_seq: "dense (seq s)"
  by (simp add: dense_def seq_def list_all_iff case_prod_unfold)

lemma increasing_x_nth: "increasing_x s \<Longrightarrow> i < j \<Longrightarrow> j < length s \<Longrightarrow> fst (s ! i) < fst (s ! j)"
  by (simp add: increasing_x_def sorted_wrt_iff_nth_less)


lemma slope_at_seq:
  assumes "2 \<le> length s" "increasing_x s" "i < length s"
  shows "slope_at (seq s) i = Inr (Num (fin_diff s i))"
proof -
  have ne: "\<And>j k. j < k \<Longrightarrow> k < length s \<Longrightarrow> fst (s ! k) - fst (s ! j) \<noteq> 0"
    using increasing_x_nth[OF assms(2)] by fastforce
  consider "i = 0" | "i \<noteq> 0" "i = length s - 1" | "i \<noteq> 0" "i \<noteq> length s - 1" by blast
  then show ?thesis
  proof cases
    case 1
    moreover have "s \<noteq> []" using assms(1) by auto
    ultimately show ?thesis using assms(1) ne[of 0 1]
      by (simp add: slope_at_def elem_seq diff_quot_def fin_diff_def)
  next
    case 2
    then show ?thesis using assms(1,3) ne[of "i - 1" i]
      by (simp add: slope_at_def elem_seq diff_quot_def fin_diff_def)
  next
    case 3
    then show ?thesis using assms(1,3) ne[of "i - 1" "i + 1"]
      by (simp add: slope_at_def elem_seq diff_quot_def fin_diff_def)
  qed
qed

lemma calculateDerivative_seq:
  assumes "2 \<le> length s" "increasing_x s"
  shows "calculateDerivative (seq s) = Inr (seq (map (\<lambda>i. (fst (s ! i), fin_diff s i)) [0..<length s]))"
proof -
  from assms have len: "2 \<le> length (seq s)" by simp
  from deriv_loop_dense[OF dense_seq len, of 0 "[]"]
  obtain out where out: "deriv_loop (seq s) 0 [] = Inr out" "length out = length s"
    "\<forall>k < length out. \<exists>p v. seq s ! k = Some p \<and> slope_at (seq s) k = Inr v \<and>
            out ! k = Some \<lparr>x = x p, y = v\<rparr>"
    by auto
  have nth_out: "out ! k = Some \<lparr>x = Num (fst (s ! k)), y = Num (fin_diff s k)\<rparr>" if "k < length s" for k
  proof -
    from out(2,3) that obtain p v where pv: "seq s ! k = Some p" "slope_at (seq s) k = Inr v"
      "out ! k = Some \<lparr>x = x p, y = v\<rparr>" by auto
    from pv(1) that have "p = \<lparr>x = Num (fst (s ! k)), y = Num (snd (s ! k))\<rparr>" by (simp add: nth_seq)
    moreover from pv(2) that assms have "v = Num (fin_diff s k)" by (simp add: slope_at_seq)
    ultimately show ?thesis using pv(3) by simp
  qed
  have "out = seq (map (\<lambda>i. (fst (s ! i), fin_diff s i)) [0..<length s])"
    by (rule nth_equalityI) (simp_all add: out(2) nth_out nth_seq)
  then show ?thesis
    using assms out(1) by (simp add: calculateDerivative_def)
qed

section \<open>Properties of calculateDerivative\<close>

text \<open>
  C1. On a point sequence of \<open>n \<ge> 2\<close> real samples with strictly increasing \<open>x\<close>,
  \<^verbatim>\<open>calculateDerivative\<close> returns \<open>n\<close> points with the \<open>x\<close>-values of the input, the forward
  difference at the first index, the backward difference at the last index and the central
  difference at every index in between; on a sequence of fewer than two points it returns
  the empty sequence.
\<close>

theorem calculateDerivative_differences:
  "(2 \<le> length s \<and> increasing_x s \<longrightarrow>
      (\<exists>d. calculateDerivative (seq s) = Inr (seq d) \<and> length d = length s \<and>
           (\<forall>i < length s. fst (d ! i) = fst (s ! i)) \<and>
           snd (d ! 0) = (snd (s ! 1) - snd (s ! 0)) / (fst (s ! 1) - fst (s ! 0)) \<and>
           snd (d ! (length s - 1)) =
             (snd (s ! (length s - 1)) - snd (s ! (length s - 2))) /
             (fst (s ! (length s - 1)) - fst (s ! (length s - 2))) \<and>
           (\<forall>i. 0 < i \<and> i < length s - 1 \<longrightarrow>
              snd (d ! i) =
                (snd (s ! (i + 1)) - snd (s ! (i - 1))) / (fst (s ! (i + 1)) - fst (s ! (i - 1))))))
   \<and> (length s < 2 \<longrightarrow> calculateDerivative (seq s) = Inr [])"
proof (intro conjI impI)
  assume "length s < 2"
  then show "calculateDerivative (seq s) = Inr []" by (simp add: calculateDerivative_def)
next
  assume a: "2 \<le> length s \<and> increasing_x s"
  define d where "d = map (\<lambda>i. (fst (s ! i), fin_diff s i)) [0..<length s]"
  have "calculateDerivative (seq s) = Inr (seq d)"
    using a by (simp add: calculateDerivative_seq d_def)
  moreover have "length d = length s" by (simp add: d_def)
  moreover have "\<forall>i < length s. fst (d ! i) = fst (s ! i)" by (simp add: d_def)
  moreover have "snd (d ! 0) = (snd (s ! 1) - snd (s ! 0)) / (fst (s ! 1) - fst (s ! 0))"
  proof -
    have "s \<noteq> []" using a by auto
    then show ?thesis by (simp add: d_def fin_diff_def diff_quot_def)
  qed
  moreover have "snd (d ! (length s - 1)) =
             (snd (s ! (length s - 1)) - snd (s ! (length s - 2))) /
             (fst (s ! (length s - 1)) - fst (s ! (length s - 2)))"
  proof -
    define n where "n = length s - 1"
    have n: "n < length s" "n \<noteq> 0" "n - Suc 0 = length s - 2" using a by (auto simp: n_def)
    have "d ! n = (fst (s ! n), fin_diff s n)" using n(1) by (simp add: d_def)
    moreover have "fin_diff s n = diff_quot s n (n - 1)" using n(2) by (simp add: fin_diff_def n_def)
    ultimately have "snd (d ! n) = (snd (s ! n) - snd (s ! (length s - 2))) /
             (fst (s ! n) - fst (s ! (length s - 2)))"
      by (simp add: diff_quot_def n(3))
    then show ?thesis by (simp only: n_def)
  qed
  moreover have "\<forall>i. 0 < i \<and> i < length s - 1 \<longrightarrow>
              snd (d ! i) =
                (snd (s ! (i + 1)) - snd (s ! (i - 1))) / (fst (s ! (i + 1)) - fst (s ! (i - 1)))"
  proof (intro allI impI)
    fix i assume i: "0 < i \<and> i < length s - 1"
    then have "i < length s" "i \<noteq> 0" "i \<noteq> length s - 1" by auto
    then have "d ! i = (fst (s ! i), fin_diff s i)" "fin_diff s i = diff_quot s (i + 1) (i - 1)"
      by (simp_all add: d_def fin_diff_def)
    then show "snd (d ! i) =
        (snd (s ! (i + 1)) - snd (s ! (i - 1))) / (fst (s ! (i + 1)) - fst (s ! (i - 1)))"
      by (simp add: diff_quot_def)
  qed
  ultimately show "\<exists>d. calculateDerivative (seq s) = Inr (seq d) \<and> length d = length s \<and>
           (\<forall>i < length s. fst (d ! i) = fst (s ! i)) \<and>
           snd (d ! 0) = (snd (s ! 1) - snd (s ! 0)) / (fst (s ! 1) - fst (s ! 0)) \<and>
           snd (d ! (length s - 1)) =
             (snd (s ! (length s - 1)) - snd (s ! (length s - 2))) /
             (fst (s ! (length s - 1)) - fst (s ! (length s - 2))) \<and>
           (\<forall>i. 0 < i \<and> i < length s - 1 \<longrightarrow>
              snd (d ! i) =
                (snd (s ! (i + 1)) - snd (s ! (i - 1))) / (fst (s ! (i + 1)) - fst (s ! (i - 1))))"
    by blast
qed

theorem calculateDerivative_differences_witness:
  "2 \<le> length parabola3 \<and> increasing_x parabola3 \<and>
   calculateDerivative (seq parabola3) = Inr (seq [(0, 1), (1, 2), (2, 3)]) \<and>
   length single_point < 2 \<and> calculateDerivative (seq single_point) = Inr []"
proof -
  have h: "2 \<le> length parabola3 \<and> increasing_x parabola3"
    by (simp add: parabola3_def increasing_x_def)
  have l: "length single_point < 2" by (simp add: single_point_def)
  from calculateDerivative_differences[of parabola3] h
  obtain d where d: "calculateDerivative (seq parabola3) = Inr (seq d)" "length d = length parabola3"
    "\<forall>i < length parabola3. fst (d ! i) = fst (parabola3 ! i)"
    "snd (d ! 0) = (snd (parabola3 ! 1) - snd (parabola3 ! 0)) / (fst (parabola3 ! 1) - fst (parabola3 ! 0))"
    "snd (d ! (length parabola3 - 1)) =
             (snd (parabola3 ! (length parabola3 - 1)) - snd (parabola3 ! (length parabola3 - 2))) /
             (fst (parabola3 ! (length parabola3 - 1)) - fst (parabola3 ! (length parabola3 - 2)))"
    "\<forall>i. 0 < i \<and> i < length parabola3 - 1 \<longrightarrow>
              snd (d ! i) =
                (snd (parabola3 ! (i + 1)) - snd (parabola3 ! (i - 1))) /
                (fst (parabola3 ! (i + 1)) - fst (parabola3 ! (i - 1)))"
    by blast
  from d(2) obtain p0 p1 p2 where ps: "d = [p0, p1, p2]"
    by (auto simp: parabola3_def length_Suc_conv numeral_3_eq_3)
  from d(3)[rule_format, of 0] d(3)[rule_format, of 1] d(3)[rule_format, of 2]
  have "fst p0 = 0" "fst p1 = 1" "fst p2 = 2"
    by (simp_all add: ps parabola3_def)
  moreover from d(4) have "snd p0 = 1" by (simp add: ps parabola3_def)
  moreover from d(5) have "snd p2 = 3" by (simp add: ps parabola3_def)
  moreover from d(6)[rule_format, of 1] have "snd p1 = 2" by (simp add: ps parabola3_def)
  ultimately have "d = [(0, 1), (1, 2), (2, 3)]"
    by (simp add: ps prod_eq_iff)
  with d(1) h l calculateDerivative_differences[of single_point] show ?thesis by simp
qed

section \<open>Properties of calculateIntegral\<close>

lemma integ_loop_dense:
  assumes "dense ps"
  shows "1 \<le> i \<Longrightarrow> i \<le> length ps \<Longrightarrow>
    \<exists>out. integ_loop ps i a acc = Inr (acc @ out) \<and> length out = length ps - i"
proof (induction "length ps - i" arbitrary: i a acc)
  case 0
  then show ?case by (subst integ_loop.simps) simp
next
  case (Suc n)
  then have lt: "i < length ps" "i - 1 < length ps" by simp_all
  from dense_elem[OF assms lt(1)] obtain p where p: "elem ps i = Some p" by blast
  from dense_elem[OF assms lt(2)] obtain q where q: "elem ps (i - 1) = Some q" by blast
  define area where "area = a + (y p + y q) / Num 2 * (x p - x q)"
  define e where "e = Some \<lparr>x = x p, y = area\<rparr>"
  have "n = length ps - Suc i" "1 \<le> Suc i" "Suc i \<le> length ps" using Suc(2) lt by simp_all
  from Suc(1)[OF this, of area "acc @ [e]"]
  obtain out where out: "integ_loop ps (Suc i) area (acc @ [e]) = Inr ((acc @ [e]) @ out)"
     "length out = length ps - Suc i"
    by blast
  have "integ_loop ps i a acc = Inr (acc @ (e # out))"
    using lt p q out(1) by (subst integ_loop.simps) (simp add: e_def area_def)
  moreover have "length (e # out) = length ps - i" using out(2) lt by simp
  ultimately show ?case by blast
qed

lemma integ_loop_seq:
  "1 \<le> i \<Longrightarrow> i \<le> length s \<Longrightarrow>
   integ_loop (seq s) i (Num (c + cum_area s (i - 1))) acc =
     Inr (acc @ seq (map (\<lambda>k. (fst (s ! k), c + cum_area s k)) [i..<length s]))"
proof (induction "length s - i" arbitrary: i acc)
  case 0
  then show ?case by (subst integ_loop.simps) (simp add: seq_def)
next
  case (Suc n)
  then have lt: "i < length s" "i - 1 < length s" by simp_all
  obtain j where j: "i = Suc j" using Suc(3) by (cases i) auto
  define e where "e = Some \<lparr>x = Num (fst (s ! i)), y = Num (c + cum_area s i)\<rparr>"
  have "n = length s - Suc i" "1 \<le> Suc i" "Suc i \<le> length s" using Suc(2) lt by simp_all
  from Suc(1)[OF this, of "acc @ [e]"]
  have IH: "integ_loop (seq s) (Suc i) (Num (c + cum_area s i)) (acc @ [e]) =
     Inr ((acc @ [e]) @ seq (map (\<lambda>k. (fst (s ! k), c + cum_area s k)) [Suc i..<length s]))"
    by simp
  define A where "A = Num (c + cum_area s (i - 1)) +
      (Num (snd (s ! i)) + Num (snd (s ! (i - 1)))) / Num 2 * (Num (fst (s ! i)) - Num (fst (s ! (i - 1))))"
  have A_eq: "A = Num (c + cum_area s i)"
    by (simp add: A_def j trapezoid_def)
  have "integ_loop (seq s) i (Num (c + cum_area s (i - 1))) acc =
      integ_loop (seq s) (Suc i) A (acc @ [Some \<lparr>x = Num (fst (s ! i)), y = A\<rparr>])"
    using lt by (subst integ_loop.simps) (simp add: elem_seq A_def Let_def)
  also have "\<dots> = integ_loop (seq s) (Suc i) (Num (c + cum_area s i)) (acc @ [e])"
    by (simp only: A_eq e_def)
  also have "\<dots> = Inr (acc @ seq (map (\<lambda>k. (fst (s ! k), c + cum_area s k)) [i..<length s]))"
  proof -
    have "seq (map (\<lambda>k. (fst (s ! k), c + cum_area s k)) [i..<length s]) =
        e # seq (map (\<lambda>k. (fst (s ! k), c + cum_area s k)) [Suc i..<length s])"
      using lt(1) by (simp add: upt_conv_Cons seq_def e_def)
    then show ?thesis by (simp add: IH)
  qed
  finally show ?case .
qed

lemma calculateIntegral_seq:
  "calculateIntegral (seq s) (Num c) =
     Inr (seq (map (\<lambda>k. (fst (s ! k), c + cum_area s k)) [0..<length s]))"
proof (cases "s = []")
  case True
  then show ?thesis by (simp add: calculateIntegral_def seq_def)
next
  case False
  then have len: "Suc 0 \<le> length s" "0 < length s" by (cases s; simp)+
  have "calculateIntegral (seq s) (Num c) =
     integ_loop (seq s) 1 (Num (c + cum_area s (1 - 1))) (seq [(fst (s ! 0), c)])"
    using False len(2) by (simp add: calculateIntegral_def elem_seq seq_def[of "[_]"] Let_def del: length_greater_0_conv)
  also have "\<dots> = Inr (seq [(fst (s ! 0), c)] @ seq (map (\<lambda>k. (fst (s ! k), c + cum_area s k)) [1..<length s]))"
    by (rule integ_loop_seq) (simp_all add: len)
  also have "\<dots> = Inr (seq (map (\<lambda>k. (fst (s ! k), c + cum_area s k)) [0..<length s]))"
    using len(2) by (simp add: upt_conv_Cons[of 0] seq_def del: length_greater_0_conv)
  finally show ?thesis .
qed

text \<open>
  The concrete scenarios of the specification: the finite differences of three samples of
  \<open>x\<^sup>2\<close>, and the integral of two samples of the constant 1.
\<close>

lemma scenario_derivative_parabola:
  "calculateDerivative (seq parabola3) = Inr (seq [(0, 1), (1, 2), (2, 3)])"
  by (simp add: calculateDerivative_def parabola3_def seq_def elem_def deriv_loop.simps slope_at_def)

lemma scenario_integral_constant:
  "calculateIntegral (seq constant2) (Num 0) = Inr (seq [(0, 0), (1, 1)])"
  by (simp add: calculateIntegral_def constant2_def seq_def elem_def integ_loop.simps Let_def)

text \<open>
  C2. On a point sequence of \<open>n \<ge> 1\<close> real samples and a real constant \<open>c\<close>,
  \<^verbatim>\<open>calculateIntegral\<close> returns \<open>n\<close> points with the \<open>x\<close>-values of the input; the first
  \<open>y\<close>-value is \<open>c\<close> and every later \<open>y\<close>-value is the one before it plus the area of the
  trapezoid between the two samples. On the empty sequence it returns the empty sequence.
\<close>

theorem calculateIntegral_trapezoid:
  "(1 \<le> length s \<longrightarrow>
      (\<exists>d. calculateIntegral (seq s) (Num c) = Inr (seq d) \<and> length d = length s \<and>
           map fst d = map fst s \<and> snd (d ! 0) = c \<and>
           (\<forall>i. 1 \<le> i \<and> i < length s \<longrightarrow>
              snd (d ! i) =
                snd (d ! (i - 1)) +
                ((snd (s ! i) + snd (s ! (i - 1))) / 2) * (fst (s ! i) - fst (s ! (i - 1))))))
   \<and> calculateIntegral (seq []) (Num c) = Inr []"
proof (intro conjI impI)
  show "calculateIntegral (seq []) (Num c) = Inr []"
    by (simp add: calculateIntegral_def)
next
  assume a: "1 \<le> length s"
  define d where "d = map (\<lambda>k. (fst (s ! k), c + cum_area s k)) [0..<length s]"
  have "calculateIntegral (seq s) (Num c) = Inr (seq d)"
    by (simp add: calculateIntegral_seq d_def)
  moreover have "length d = length s" by (simp add: d_def)
  moreover have "map fst d = map fst s"
    by (rule nth_equalityI) (simp_all add: d_def)
  moreover have "snd (d ! 0) = c"
  proof -
    have "0 < length s" using a by (cases s) simp_all
    then have "d ! 0 = (fst (s ! 0), c + cum_area s 0)" unfolding d_def by (subst nth_map) simp_all
    then show ?thesis by simp
  qed
  moreover have "\<forall>i. 1 \<le> i \<and> i < length s \<longrightarrow>
              snd (d ! i) =
                snd (d ! (i - 1)) +
                ((snd (s ! i) + snd (s ! (i - 1))) / 2) * (fst (s ! i) - fst (s ! (i - 1)))"
  proof (intro allI impI)
    fix i assume i: "1 \<le> i \<and> i < length s"
    then obtain j where j: "i = Suc j" by (cases i) auto
    from i j have "snd (d ! Suc j) = c + cum_area s (Suc j)" "snd (d ! j) = c + cum_area s j"
      by (simp_all add: d_def)
    then show "snd (d ! i) =
                snd (d ! (i - 1)) +
                ((snd (s ! i) + snd (s ! (i - 1))) / 2) * (fst (s ! i) - fst (s ! (i - 1)))"
      by (simp add: j trapezoid_def)
  qed
  ultimately show "\<exists>d. calculateIntegral (seq s) (Num c) = Inr (seq d) \<and> length d = length s \<and>
           map fst d = map fst s \<and> snd (d ! 0) = c \<and>
           (\<forall>i. 1 \<le> i \<and> i < length s \<longrightarrow>
              snd (d ! i) =
                snd (d ! (i - 1)) +
                ((snd (s ! i) + snd (s ! (i - 1))) / 2) * (fst (s ! i) - fst (s ! (i - 1))))"
    by blast
qed

theorem calculateIntegral_trapezoid_witness:
  "1 \<le> length constant2 \<and>
   (\<exists>d. calculateIntegral (seq constant2) (Num 0) = Inr (seq d) \<and> length d = length constant2 \<and>
        map fst d = map fst constant2 \<and> snd (d ! 0) = 0 \<and>
        (\<forall>i. 1 \<le> i \<and> i < length constant2 \<longrightarrow>
              snd (d ! i) =
                snd (d ! (i - 1)) +
                ((snd (constant2 ! i) + snd (constant2 ! (i - 1))) / 2) *
                (fst (constant2 ! i) - fst (constant2 ! (i - 1)))))"
proof -
  have h: "1 \<le> length constant2" by (simp add: constant2_def)
  with calculateIntegral_trapezoid[of constant2 0] show ?thesis by blast
qed

subsection \<open>The constant of integration\<close>


lemma x_values_eqI:
  assumes "length out = length ps"
    and "\<And>k. k < length ps \<Longrightarrow> \<exists>p v. ps ! k = Some p \<and> out ! k = Some \<lparr>x = x p, y = v\<rparr>"
  shows "x_values out = x_values ps"
  unfolding x_values_def
proof (rule nth_equalityI)
  show "length (map (map_option x) out) = length (map (map_option x) ps)" using assms(1) by simp
next
  fix k assume "k < length (map (map_option x) out)"
  then have k: "k < length ps" using assms(1) by simp
  from assms(2)[OF k] obtain p :: point and v where "ps ! k = Some p" "out ! k = Some \<lparr>x = x p, y = v\<rparr>"
    by blast
  then show "map (map_option x) out ! k = map (map_option x) ps ! k"
    using k assms(1) by simp
qed







section \<open>Differentiating, then integrating\<close>

lemma seq_inject: "seq r = seq s \<longleftrightarrow> r = s"
proof -
  have "inj (\<lambda>(a, b). Some \<lparr>x = Num a, y = Num b\<rparr>)"
    by (auto simp: inj_on_def)
  then show ?thesis by (simp add: seq_def inj_map_eq_map)
qed

lemma on_line_nth: "on_line a b s \<Longrightarrow> i < length s \<Longrightarrow> snd (s ! i) = a * fst (s ! i) + b"
  by (simp add: on_line_def list_all_length)

lemma diff_quot_on_line:
  assumes "on_line a b s" "i < length s" "j < length s" "fst (s ! j) \<noteq> fst (s ! i)"
  shows "diff_quot s j i = a"
proof -
  have "snd (s ! j) - snd (s ! i) = a * (fst (s ! j) - fst (s ! i))"
    using assms(1-3) by (simp add: on_line_nth right_diff_distrib)
  then show ?thesis using assms(4) by (simp add: diff_quot_def)
qed

lemma fin_diff_on_line:
  assumes "on_line a b s" "increasing_x s" "2 \<le> length s" "i < length s"
  shows "fin_diff s i = a"
proof -
  have ne: "\<And>j k. j < k \<Longrightarrow> k < length s \<Longrightarrow> fst (s ! k) \<noteq> fst (s ! j)"
    using increasing_x_nth[OF assms(2)] by fastforce
  consider "i = 0" | "i \<noteq> 0" "i = length s - 1" | "i \<noteq> 0" "i \<noteq> length s - 1" by blast
  then show ?thesis
  proof cases
    case 1
    have "diff_quot s 1 0 = a" using assms(3) ne[of 0 1] by (intro diff_quot_on_line[OF assms(1)]) auto
    then show ?thesis using 1 by (simp add: fin_diff_def)
  next
    case 2
    have "diff_quot s i (i - 1) = a" using assms(4) 2 ne[of "i - 1" i]
      by (intro diff_quot_on_line[OF assms(1)]) auto
    then show ?thesis using 2 by (simp add: fin_diff_def)
  next
    case 3
    have "diff_quot s (i + 1) (i - 1) = a" using assms(4) 3 ne[of "i - 1" "i + 1"]
      by (intro diff_quot_on_line[OF assms(1)]) auto
    then show ?thesis using 3 by (simp add: fin_diff_def)
  qed
qed

lemma cum_area_constant:
  assumes "\<forall>k < length d. snd (d ! k) = a"
  shows "k < length d \<Longrightarrow> cum_area d k = a * (fst (d ! k) - fst (d ! 0))"
proof (induction k)
  case 0
  then show ?case by simp
next
  case (Suc k)
  then have "cum_area d k = a * (fst (d ! k) - fst (d ! 0))" by simp
  moreover have "trapezoid d (Suc k) = a * (fst (d ! Suc k) - fst (d ! k))"
    using assms Suc(2) by (simp add: trapezoid_def)
  ultimately show ?case by (simp add: algebra_simps)
qed

lemma integrate_derivative_seq:
  assumes "2 \<le> length s" "increasing_x s"
  shows "integrate_derivative (seq s) (Num c) =
    Inr (seq (map (\<lambda>k. (fst (s ! k),
        c + cum_area (map (\<lambda>i. (fst (s ! i), fin_diff s i)) [0..<length s]) k)) [0..<length s]))"
proof -
  define d where "d = map (\<lambda>i. (fst (s ! i), fin_diff s i)) [0..<length s]"
  have "integrate_derivative (seq s) (Num c) = calculateIntegral (seq d) (Num c)"
    using assms by (simp add: integrate_derivative_def calculateDerivative_seq d_def)
  also have "\<dots> = Inr (seq (map (\<lambda>k. (fst (d ! k), c + cum_area d k)) [0..<length d]))"
    by (rule calculateIntegral_seq)
  also have "map (\<lambda>k. (fst (d ! k), c + cum_area d k)) [0..<length d] =
      map (\<lambda>k. (fst (s ! k), c + cum_area d k)) [0..<length s]"
    by (simp add: d_def)
  finally show ?thesis by (simp add: d_def)
qed

lemma integrate_derivative_on_line:
  assumes "2 \<le> length s" "increasing_x s" "on_line a b s"
  shows "integrate_derivative (seq s) (Num c) =
    Inr (seq (map (\<lambda>k. (fst (s ! k), c + a * (fst (s ! k) - fst (s ! 0)))) [0..<length s]))"
proof -
  define d where "d = map (\<lambda>i. (fst (s ! i), fin_diff s i)) [0..<length s]"
  have len: "length d = length s" by (simp add: d_def)
  have "\<forall>k < length d. snd (d ! k) = a"
    using assms by (simp add: d_def fin_diff_on_line)
  then have "cum_area d k = a * (fst (d ! k) - fst (d ! 0))" if "k < length s" for k
    using that len by (simp add: cum_area_constant)
  moreover have "fst (d ! k) = fst (s ! k)" if "k < length s" for k
    using that by (simp add: d_def)
  moreover have "0 < length s" using assms(1) by (cases s) simp_all
  ultimately have "cum_area d k = a * (fst (s ! k) - fst (s ! 0))" if "k < length s" for k
    using that by simp
  then have meq: "map (\<lambda>k. (fst (s ! k), c + cum_area d k)) [0..<length s] =
      map (\<lambda>k. (fst (s ! k), c + a * (fst (s ! k) - fst (s ! 0)))) [0..<length s]"
    by simp
  have "integrate_derivative (seq s) (Num c) =
      Inr (seq (map (\<lambda>k. (fst (s ! k), c + cum_area d k)) [0..<length s]))"
    unfolding d_def by (rule integrate_derivative_seq[OF assms(1,2)])
  then show ?thesis by (simp only: meq)
qed

lemma integ_loop_dense_x:
  assumes "dense ps"
  shows "1 \<le> i \<Longrightarrow> i \<le> length ps \<Longrightarrow>
    \<exists>out. integ_loop ps i a acc = Inr (acc @ out) \<and> length out = length ps - i \<and>
      (\<forall>k < length out. \<exists>p v. ps ! (i + k) = Some p \<and> out ! k = Some \<lparr>x = x p, y = v\<rparr>)"
proof (induction "length ps - i" arbitrary: i a acc)
  case 0
  then show ?case by (subst integ_loop.simps) simp
next
  case (Suc n)
  then have lt: "i < length ps" "i - 1 < length ps" by simp_all
  from dense_nth[OF assms lt(1)] obtain p where p: "ps ! i = Some p" by blast
  from dense_elem[OF assms lt(2)] obtain q where q: "elem ps (i - 1) = Some q" by blast
  define area where "area = a + (y p + y q) / Num 2 * (x p - x q)"
  define e where "e = Some \<lparr>x = x p, y = area\<rparr>"
  have "n = length ps - Suc i" "1 \<le> Suc i" "Suc i \<le> length ps" using Suc(2) lt by simp_all
  from Suc(1)[OF this, of area "acc @ [e]"]
  obtain out where out: "integ_loop ps (Suc i) area (acc @ [e]) = Inr ((acc @ [e]) @ out)"
     "length out = length ps - Suc i"
     "\<forall>k < length out. \<exists>p v. ps ! (Suc i + k) = Some p \<and> out ! k = Some \<lparr>x = x p, y = v\<rparr>"
    by blast
  have "integ_loop ps i a acc = Inr (acc @ (e # out))"
    using lt p q out(1) by (subst integ_loop.simps) (simp add: e_def area_def elem_def)
  moreover have "length (e # out) = length ps - i" using out(2) lt by simp
  moreover have "\<forall>k < length (e # out). \<exists>p' v. ps ! (i + k) = Some p' \<and>
            (e # out) ! k = Some \<lparr>x = x p', y = v\<rparr>"
  proof (intro allI impI)
    fix k assume "k < length (e # out)"
    then show "\<exists>p' v. ps ! (i + k) = Some p' \<and> (e # out) ! k = Some \<lparr>x = x p', y = v\<rparr>"
      using p out(3) by (cases k) (auto simp: e_def)
  qed
  ultimately show ?case by blast
qed

lemma calculateIntegral_dense_x:
  assumes "dense ps"
  shows "\<exists>out. calculateIntegral ps C = Inr out \<and> length out = length ps \<and>
     x_values out = x_values ps"
proof (cases "ps = []")
  case True
  then show ?thesis by (simp add: calculateIntegral_def x_values_def)
next
  case False
  then have pos: "0 < length ps" "1 \<le> length ps" by (cases ps; simp)+
  from dense_nth[OF assms pos(1)] obtain p where p: "ps ! 0 = Some p" by blast
  define c where "c = (if C = Undefined then Num 0 else C)"
  define e where "e = Some \<lparr>x = x p, y = c\<rparr>"
  have "1 \<le> (1::nat)" by simp
  from integ_loop_dense_x[OF assms this pos(2), of c "[e]"]
  obtain out where out: "integ_loop ps 1 c [e] = Inr ([e] @ out)" "length out = length ps - 1"
    "\<forall>k < length out. \<exists>p v. ps ! (1 + k) = Some p \<and> out ! k = Some \<lparr>x = x p, y = v\<rparr>"
    by blast
  have r: "calculateIntegral ps C = Inr (e # out)"
    using False p pos out(1) by (simp add: calculateIntegral_def Let_def c_def e_def elem_def)
  have len: "length (e # out) = length ps" using out(2) pos by simp
  have "\<exists>p' v. ps ! k = Some p' \<and> (e # out) ! k = Some \<lparr>x = x p', y = v\<rparr>" if "k < length ps" for k
    using that p out(2,3) by (cases k) (auto simp: e_def)
  from x_values_eqI[OF len this] r len show ?thesis by blast
qed

lemma calculateDerivative_dense_x:
  assumes "dense ps" "2 \<le> length ps"
  shows "\<exists>d. calculateDerivative ps = Inr d \<and> dense d \<and> length d = length ps \<and>
     x_values d = x_values ps"
proof -
  from deriv_loop_dense[OF assms, of 0 "[]"]
  obtain out where out: "deriv_loop ps 0 [] = Inr out" "length out = length ps"
    "\<forall>k < length out. \<exists>p v. ps ! (0 + k) = Some p \<and> slope_at ps (0 + k) = Inr v \<and>
            out ! k = Some \<lparr>x = x p, y = v\<rparr>"
    by auto
  have r: "calculateDerivative ps = Inr out" using out(1) assms(2) by (simp add: calculateDerivative_def)
  have "\<exists>p v. ps ! k = Some p \<and> out ! k = Some \<lparr>x = x p, y = v\<rparr>" if "k < length ps" for k
    using that out(2,3) by fastforce
  from x_values_eqI[OF out(2) this] have xv: "x_values out = x_values ps" .
  have "\<forall>k < length out. out ! k \<noteq> None" using out(3) by fastforce
  then have "dense out" by (simp add: dense_def list_all_length)
  with r out(2) xv show ?thesis by blast
qed

lemma integrate_derivative_x:
  assumes "2 \<le> length s"
  shows "\<exists>r. integrate_derivative (seq s) C = Inr r \<and> x_values r = x_values (seq s)"
proof -
  from assms have "2 \<le> length (seq s)" by simp
  from calculateDerivative_dense_x[OF dense_seq this]
  obtain d where d: "calculateDerivative (seq s) = Inr d" "dense d" "x_values d = x_values (seq s)"
    by blast
  from calculateIntegral_dense_x[OF d(2), of C]
  obtain r where "calculateIntegral d C = Inr r" "x_values r = x_values d" by blast
  with d show ?thesis by (simp add: integrate_derivative_def)
qed

text \<open>
  C4, as the specification states it, fails: the two samples \<open>(1, 1)\<close> and \<open>(2, 2)\<close> lie on
  the line \<open>y = 1 * x + 0\<close>, and integrating their derivative from the constant \<open>b = 0\<close>
  gives \<open>(1, 0)\<close> and \<open>(2, 1)\<close>.
\<close>

theorem linear_roundtrip_counterexample:
  "increasing_x line2 \<and> on_line 1 0 line2 \<and>
   integrate_derivative (seq line2) (Num 0) = Inr (seq [(1, 0), (2, 1)]) \<and>
   integrate_derivative (seq line2) (Num 0) \<noteq> Inr (seq line2)"
  by (simp add: increasing_x_def on_line_def line2_def integrate_derivative_def
      calculateDerivative_def calculateIntegral_def seq_def elem_def deriv_loop.simps
      integ_loop.simps slope_at_def Let_def)

text \<open>
  C4, amended. For \<open>n \<ge> 2\<close> samples with strictly increasing \<open>x\<close> on the line
  \<open>y = a * x + b\<close>, integrating the derivative from the constant \<open>seq[0].y\<close> (which is
  \<open>a * x[0] + b\<close>) returns the sequence itself; from the constant \<open>b\<close> it does so exactly
  when \<open>a * x[0] = 0\<close>. For every sequence of \<open>n \<ge> 2\<close> samples, integrating the
  derivative from \<open>seq[0].y\<close> returns as many points with the \<open>x\<close>-values unchanged.
\<close>

theorem linear_roundtrip:
  "(2 \<le> length s \<and> increasing_x s \<and> on_line a b s \<longrightarrow>
      integrate_derivative (seq s) (Num (snd (s ! 0))) = Inr (seq s) \<and>
      (integrate_derivative (seq s) (Num b) = Inr (seq s)) = (a * fst (s ! 0) = 0)) \<and>
   (2 \<le> length s \<longrightarrow>
      (\<exists>r. integrate_derivative (seq s) (Num (snd (s ! 0))) = Inr r \<and>
           length r = length s \<and> x_values r = x_values (seq s)))"
proof (intro impI conjI)
  assume "2 \<le> length s"
  from integrate_derivative_x[OF this, of "Num (snd (s ! 0))"]
  obtain r where r: "integrate_derivative (seq s) (Num (snd (s ! 0))) = Inr r"
    "x_values r = x_values (seq s)" by blast
  from r(2) have "length (x_values r) = length (x_values (seq s))" by simp
  then have "length r = length s" by (simp add: x_values_def)
  with r show "\<exists>r. integrate_derivative (seq s) (Num (snd (s ! 0))) = Inr r \<and>
           length r = length s \<and> x_values r = x_values (seq s)" by blast
next
  assume h: "2 \<le> length s \<and> increasing_x s \<and> on_line a b s"
  then have pos: "0 < length s" by (cases s) simp_all
  from h have l: "on_line a b s" by simp
  have eq: "integrate_derivative (seq s) (Num c) =
    Inr (seq (map (\<lambda>k. (fst (s ! k), c + a * (fst (s ! k) - fst (s ! 0)))) [0..<length s]))" for c
    using h integrate_derivative_on_line[of s a b c] by simp
  have s_eq: "s = map (\<lambda>k. (fst (s ! k), (a * fst (s ! 0) + b) + a * (fst (s ! k) - fst (s ! 0)))) [0..<length s]"
    by (rule nth_equalityI) (simp_all add: on_line_nth[OF l] prod_eq_iff algebra_simps)
  have s0: "snd (s ! 0) = a * fst (s ! 0) + b" using l pos by (simp add: on_line_nth)
  show "integrate_derivative (seq s) (Num (snd (s ! 0))) = Inr (seq s)"
    using s_eq by (simp add: eq s0)
  show "(integrate_derivative (seq s) (Num b) = Inr (seq s)) = (a * fst (s ! 0) = 0)"
  proof
    assume "integrate_derivative (seq s) (Num b) = Inr (seq s)"
    then have "map (\<lambda>k. (fst (s ! k), b + a * (fst (s ! k) - fst (s ! 0)))) [0..<length s] = s"
      by (simp add: eq seq_inject)
    then have "map (\<lambda>k. (fst (s ! k), b + a * (fst (s ! k) - fst (s ! 0)))) [0..<length s] ! 0 = s ! 0"
      by simp
    then have "b + a * (fst (s ! 0) - fst (s ! 0)) = snd (s ! 0)"
      using pos by (simp add: prod_eq_iff)
    then show "a * fst (s ! 0) = 0" by (simp add: s0)
  next
    assume z: "a * fst (s ! 0) = 0"
    have "map (\<lambda>k. (fst (s ! k), b + a * (fst (s ! k) - fst (s ! 0)))) [0..<length s] = s"
      by (rule nth_equalityI) (simp_all add: on_line_nth[OF l] prod_eq_iff algebra_simps z)
    then show "integrate_derivative (seq s) (Num b) = Inr (seq s)" by (simp add: eq)
  qed
qed

theorem linear_roundtrip_witness:
  "2 \<le> length line2 \<and> increasing_x line2 \<and> on_line 1 0 line2 \<and>
   integrate_derivative (seq line2) (Num (snd (line2 ! 0))) = Inr (seq line2) \<and>
   (integrate_derivative (seq line2) (Num 0) = Inr (seq line2)) = ((1::real) * fst (line2 ! 0) = 0) \<and>
   2 \<le> length zigzag3 \<and> \<not> increasing_x zigzag3 \<and>
   (\<exists>r. integrate_derivative (seq zigzag3) (Num (snd (zigzag3 ! 0))) = Inr r \<and>
        length r = length zigzag3 \<and> x_values r = x_values (seq zigzag3))"
proof -
  have h: "2 \<le> length line2 \<and> increasing_x line2 \<and> on_line 1 0 line2"
    by (simp add: line2_def increasing_x_def on_line_def)
  have k: "2 \<le> length zigzag3" "\<not> increasing_x zigzag3"
    by (simp_all add: zigzag3_def increasing_x_def)
  from linear_roundtrip[of line2 1 0] linear_roundtrip[of zigzag3 1 0] h k
  show ?thesis by blast
qed

section \<open>Edits inside the array\<close>

lemma dense_map_Some [simp]: "dense (map Some ps)"
  by (simp add: dense_def list_all_iff)

lemma dense_list_update: "dense ps \<Longrightarrow> dense (ps[i := Some v])"
  by (auto simp: dense_def list_all_iff dest: set_update_subset_insert[THEN subsetD])

lemma array_get_in_range:
  "0 \<le> index \<Longrightarrow> index < int (length ps) \<Longrightarrow> array_get ps index = ps ! nat index"
  by (simp add: array_get_def elem_def nat_less_iff)

lemma array_set_in_range:
  "0 \<le> index \<Longrightarrow> index < int (length ps) \<Longrightarrow> length ps < 2 ^ 32 \<Longrightarrow>
   array_set ps index v = ps[nat index := Some v]"
  by (simp add: array_set_def nat_less_iff)

lemma edit_point_in_range:
  "0 \<le> index \<Longrightarrow> index < int (length ps) \<Longrightarrow> length ps < 2 ^ 32 \<Longrightarrow>
   edit_point ps index newY = ps[nat index := Some (spread_y (ps ! nat index) newY)]"
  by (simp add: edit_point_def array_set_in_range array_get_in_range)

lemma calculateIntegral_dense:
  assumes "dense ps" "ps \<noteq> []"
  shows "\<exists>p out. elem ps 0 = Some p \<and>
     calculateIntegral ps C =
       Inr (Some \<lparr>x = x p, y = (if C = Undefined then Num 0 else C)\<rparr> # out) \<and>
     length out = length ps - 1"
proof -
  from assms have pos: "0 < length ps" by simp
  from dense_elem[OF assms(1) pos] obtain p where p: "elem ps 0 = Some p" by blast
  define c where "c = (if C = Undefined then Num 0 else C)"
  have "1 \<le> (1::nat)" "1 \<le> length ps" using assms(2) by (cases ps; simp)+
  from integ_loop_dense[OF assms(1) this, of c "[Some \<lparr>x = x p, y = c\<rparr>]"]
  obtain out where out: "integ_loop ps 1 c [Some \<lparr>x = x p, y = c\<rparr>] = Inr ([Some \<lparr>x = x p, y = c\<rparr>] @ out)"
    "length out = length ps - 1" by blast
  have "calculateIntegral ps C = Inr (Some \<lparr>x = x p, y = c\<rparr> # out)"
    using assms(2) p out(1) by (simp add: calculateIntegral_def Let_def c_def)
  with p out(2) show ?thesis unfolding c_def by blast
qed

lemma startY_seq: "s \<noteq> [] \<Longrightarrow> startY (seq s) = Num (snd (s ! 0))"
  by (simp add: startY_def elem_seq js_or_def)

lemma calculateDerivative_dense:
  assumes "dense ps" "calculateDerivative ps = Inr d"
  shows "dense d"
proof (cases "length ps < 2")
  case True
  with assms(2) show ?thesis by (simp add: calculateDerivative_def dense_def)
next
  case False
  then have len: "2 \<le> length ps" by simp
  from deriv_loop_dense[OF assms(1) len, of 0 "[]"]
  obtain out where out: "deriv_loop ps 0 [] = Inr out"
    "\<forall>k < length out. \<exists>p v. ps ! (0 + k) = Some p \<and> slope_at ps (0 + k) = Inr v \<and>
            out ! k = Some \<lparr>x = x p, y = v\<rparr>"
    by auto
  from out(1) assms(2) False have "d = out" by (simp add: calculateDerivative_def)
  with out(2) have "\<forall>k < length d. d ! k \<noteq> None" by fastforce
  then show ?thesis by (simp add: dense_def list_all_length)
qed

lemma seq_list_update: "seq (s[i := (a, b)]) = (seq s)[i := Some \<lparr>x = Num a, y = Num b\<rparr>]"
  by (simp add: seq_def map_update)

lemma handleFunctionDrag_in_range:
  assumes "0 \<le> index" "index < int (length (functionPoints st))" "length (functionPoints st) < 2 ^ 32"
  shows "handleFunctionDrag st index newY =
    Inr (st\<lparr>functionPoints :=
      (functionPoints st)[nat index := Some (spread_y (functionPoints st ! nat index) newY)]\<rparr>)"
  using assms by (simp add: handleFunctionDrag_def Let_def edit_point_in_range)

lemma increasing_x_cong: "map fst d = map fst s \<Longrightarrow> increasing_x d = increasing_x s"
  by (simp add: increasing_x_def)

text \<open>
  C3. With a non-empty PRIMARY of real samples and the DERIVATIVE computed from it, a
  derivative edit at an index inside the DERIVATIVE, with any new value, returns a state
  whose PRIMARY starts with the \<open>y\<close>-value that the PRIMARY started with before the edit.
\<close>

theorem derivative_edit_keeps_anchor:
  assumes "functionPoints st = seq s" and "s \<noteq> []"
    and "calculateDerivative (functionPoints st) = Inr (derivativePoints st)"
    and "0 \<le> index" and "index < int (length (derivativePoints st))"
    and "length (derivativePoints st) < 2 ^ 32"
  shows "\<exists>st' p. handleDerivativeDrag st index newY = Inr st' \<and>
           elem (functionPoints st') 0 = Some p \<and> y p = Num (snd (s ! 0))"
proof -
  define m where "m = edit_point (derivativePoints st) index newY"
  have "dense (derivativePoints st)"
    using assms(1,3) calculateDerivative_dense[OF dense_seq] by simp
  then have dm: "dense m" using assms(4-6) by (simp add: m_def edit_point_in_range dense_list_update)
  have ne: "m \<noteq> []" using assms(4-6) by (auto simp add: m_def edit_point_in_range)
  obtain p :: point and out where
    r: "calculateIntegral m (startY (functionPoints st)) =
       Inr (Some \<lparr>x = x p, y = (if startY (functionPoints st) = Undefined then Num 0
                                else startY (functionPoints st))\<rparr> # out)"
    using calculateIntegral_dense[OF dm ne, of "startY (functionPoints st)"] by blast
  have sy: "startY (functionPoints st) = Num (snd (s ! 0))"
    using assms(1,2) by (simp add: startY_seq)
  have "handleDerivativeDrag st index newY =
      Inr (st\<lparr>functionPoints := Some \<lparr>x = x p, y = Num (snd (s ! 0))\<rparr> # out\<rparr>)"
    using r by (simp add: handleDerivativeDrag_def Let_def m_def sy)
  then show ?thesis by (simp add: elem_def)
qed

theorem derivative_edit_keeps_anchor_witness:
  "functionPoints parabola_state = seq parabola3 \<and> parabola3 \<noteq> [] \<and>
   calculateDerivative (functionPoints parabola_state) = Inr (derivativePoints parabola_state) \<and>
   (0::int) \<le> 1 \<and> 1 < int (length (derivativePoints parabola_state)) \<and>
   length (derivativePoints parabola_state) < 2 ^ 32 \<and>
   (\<exists>st' p. handleDerivativeDrag parabola_state 1 (Num 5) = Inr st' \<and>
           elem (functionPoints st') 0 = Some p \<and> y p = Num (snd (parabola3 ! 0)))"
proof -
  have h1: "functionPoints parabola_state = seq parabola3" by (simp add: parabola_state_def)
  have h2: "parabola3 \<noteq> []" by (simp add: parabola3_def)
  have h3: "calculateDerivative (functionPoints parabola_state) = Inr (derivativePoints parabola_state)"
    by (simp add: parabola_state_def scenario_derivative_parabola)
  have h4: "(0::int) \<le> 1" by simp
  have h5: "1 < int (length (derivativePoints parabola_state))" by (simp add: parabola_state_def)
  have h6: "length (derivativePoints parabola_state) < 2 ^ 32" by (simp add: parabola_state_def)
  from derivative_edit_keeps_anchor[OF h1 h2 h3 h4 h5 h6, of "Num 5"] h1 h2 h3 h4 h5 h6
  show ?thesis by blast
qed

text \<open>
  C7. An edit to PRIMARY at an index inside the array changes only the point at that
  index, and of that point only \<open>y\<close>: the length is the same, every other point is the old
  one, and the edited point has its old \<open>x\<close> and the new \<open>y\<close>.
\<close>

theorem primary_edit_frame:
  assumes "functionPoints st = map Some ps" and "0 \<le> index" and "index < int (length ps)"
    and "length ps < 2 ^ 32"
  shows "\<exists>st'. handleFunctionDrag st index newY = Inr st' \<and>
           length (functionPoints st') = length ps \<and>
           (\<forall>j < length ps. j \<noteq> nat index \<longrightarrow> functionPoints st' ! j = Some (ps ! j)) \<and>
           functionPoints st' ! nat index = Some \<lparr>x = x (ps ! nat index), y = newY\<rparr>"
proof -
  have i: "nat index < length ps" using assms(2,3) by (simp add: nat_less_iff)
  have "handleFunctionDrag st index newY =
      Inr (st\<lparr>functionPoints := (map Some ps)[nat index := Some ((ps ! nat index)\<lparr>y := newY\<rparr>)]\<rparr>)"
    using assms i by (simp add: handleFunctionDrag_in_range spread_y_def)
  moreover have "(ps ! nat index)\<lparr>y := newY\<rparr> = \<lparr>x = x (ps ! nat index), y = newY\<rparr>"
    by (cases "ps ! nat index") simp
  ultimately show ?thesis using i by (simp add: nth_list_update)
qed

theorem primary_edit_frame_witness:
  "functionPoints parabola_state = map Some parabola_points \<and>
   (0::int) \<le> 1 \<and> 1 < int (length parabola_points) \<and> length parabola_points < 2 ^ 32 \<and>
   (\<exists>st'. handleFunctionDrag parabola_state 1 (Num 7) = Inr st' \<and>
      length (functionPoints st') = length parabola_points \<and>
      (\<forall>j < length parabola_points. j \<noteq> nat 1 \<longrightarrow>
          functionPoints st' ! j = Some (parabola_points ! j)) \<and>
      functionPoints st' ! nat 1 = Some \<lparr>x = x (parabola_points ! nat 1), y = Num 7\<rparr>)"
proof -
  have h1: "functionPoints parabola_state = map Some parabola_points"
    by (simp add: parabola_state_def parabola3_def seq_def parabola_points_def)
  have h2: "(0::int) \<le> 1" by simp
  have h3: "1 < int (length parabola_points)" by (simp add: parabola_points_def)
  have h4: "length parabola_points < 2 ^ 32" by (simp add: parabola_points_def)
  from primary_edit_frame[OF h1 h2 h3 h4, of "Num 7"] h1 h2 h3 h4
  show ?thesis by blast
qed

text \<open>
  C5, as stated, fails for \<^verbatim>\<open>calculateDerivative\<close> on a single point: the output is empty
  and so has lost the \<open>x\<close>-value of the input.
\<close>

theorem x_values_preserved_counterexample:
  "increasing_x single_point \<and> calculateDerivative (seq single_point) = Inr [] \<and>
   x_values [] \<noteq> x_values (seq single_point)"
  by (simp add: increasing_x_def single_point_def calculateDerivative_def seq_def x_values_def)

text \<open>
  C5, amended. For a sequence of real samples with strictly increasing \<open>x\<close>:
  \<^verbatim>\<open>calculateDerivative\<close> returns the \<open>x\<close>-values of the input in the same order when there are
  at least two samples and the empty sequence otherwise; \<^verbatim>\<open>calculateIntegral\<close> returns the
  \<open>x\<close>-values of the input in the same order; an edit to PRIMARY at an index inside the
  array leaves every \<open>x\<close>-value as it is. Every sequence produced has strictly increasing
  \<open>x\<close>-values.
\<close>

theorem x_values_preserved:
  "increasing_x s \<longrightarrow>
     (2 \<le> length s \<longrightarrow>
        (\<exists>d. calculateDerivative (seq s) = Inr (seq d) \<and> map fst d = map fst s \<and> increasing_x d)) \<and>
     (length s < 2 \<longrightarrow> calculateDerivative (seq s) = Inr []) \<and>
     (\<exists>d. calculateIntegral (seq s) (Num c) = Inr (seq d) \<and> map fst d = map fst s \<and> increasing_x d) \<and>
     (functionPoints st = seq s \<and> 0 \<le> index \<and> index < int (length s) \<and> length s < 2 ^ 32 \<longrightarrow>
        (\<exists>st' d. handleFunctionDrag st index (Num v) = Inr st' \<and> functionPoints st' = seq d \<and>
            map fst d = map fst s \<and> increasing_x d))"
proof (intro impI conjI)
  assume inc: "increasing_x s"
  show "calculateDerivative (seq s) = Inr []" if "length s < 2"
    using that by (simp add: calculateDerivative_def)
  show "\<exists>d. calculateDerivative (seq s) = Inr (seq d) \<and> map fst d = map fst s \<and> increasing_x d"
    if len: "2 \<le> length s"
  proof -
    define d where "d = map (\<lambda>i. (fst (s ! i), fin_diff s i)) [0..<length s]"
    have "calculateDerivative (seq s) = Inr (seq d)"
      unfolding d_def by (rule calculateDerivative_seq[OF len inc])
    moreover have m: "map fst d = map fst s" by (rule nth_equalityI) (simp_all add: d_def)
    ultimately show ?thesis using inc increasing_x_cong[OF m] by blast
  qed
  show "\<exists>d. calculateIntegral (seq s) (Num c) = Inr (seq d) \<and> map fst d = map fst s \<and> increasing_x d"
  proof -
    define d where "d = map (\<lambda>k. (fst (s ! k), c + cum_area s k)) [0..<length s]"
    have "calculateIntegral (seq s) (Num c) = Inr (seq d)"
      unfolding d_def by (rule calculateIntegral_seq)
    moreover have m: "map fst d = map fst s" by (rule nth_equalityI) (simp_all add: d_def)
    ultimately show ?thesis using inc increasing_x_cong[OF m] by blast
  qed
  show "\<exists>st' d. handleFunctionDrag st index (Num v) = Inr st' \<and> functionPoints st' = seq d \<and>
            map fst d = map fst s \<and> increasing_x d"
    if h: "functionPoints st = seq s \<and> 0 \<le> index \<and> index < int (length s) \<and> length s < 2 ^ 32"
  proof -
    define d where "d = s[nat index := (fst (s ! nat index), v)]"
    have i: "nat index < length s" using h by (simp add: nat_less_iff)
    have "handleFunctionDrag st index (Num v) = Inr (st\<lparr>functionPoints := seq d\<rparr>)"
      using h i by (simp add: handleFunctionDrag_in_range spread_y_def nth_seq d_def seq_list_update)
    moreover have m: "map fst d = map fst s"
      using i by (simp add: d_def map_update list_update_same_conv)
    ultimately show ?thesis using inc increasing_x_cong[OF m] by (intro exI[of _ "st\<lparr>functionPoints := seq d\<rparr>"] exI[of _ d]) simp
  qed
qed

theorem x_values_preserved_witness:
  "increasing_x parabola3 \<and> 2 \<le> length parabola3 \<and>
   (\<exists>d. calculateDerivative (seq parabola3) = Inr (seq d) \<and> map fst d = map fst parabola3 \<and>
        increasing_x d) \<and>
   (\<exists>d. calculateIntegral (seq parabola3) (Num 0) = Inr (seq d) \<and> map fst d = map fst parabola3 \<and>
        increasing_x d) \<and>
   functionPoints parabola_state = seq parabola3 \<and> (0::int) \<le> 1 \<and> 1 < int (length parabola3) \<and>
   length parabola3 < 2 ^ 32 \<and>
   (\<exists>st' d. handleFunctionDrag parabola_state 1 (Num 7) = Inr st' \<and> functionPoints st' = seq d \<and>
        map fst d = map fst parabola3 \<and> increasing_x d) \<and>
   increasing_x single_point \<and> length single_point < 2 \<and>
   calculateDerivative (seq single_point) = Inr []"
proof -
  have h: "increasing_x parabola3" "2 \<le> length parabola3"
    "functionPoints parabola_state = seq parabola3 \<and> (0::int) \<le> 1 \<and> 1 < int (length parabola3) \<and>
       length parabola3 < 2 ^ 32"
    by (simp_all add: increasing_x_def parabola3_def parabola_state_def)
  have k: "increasing_x single_point" "length single_point < 2"
    by (simp_all add: increasing_x_def single_point_def)
  from x_values_preserved[of parabola3 0 parabola_state 1 7] x_values_preserved[of single_point 0 parabola_state 1 7] h k
  show ?thesis by blast
qed

section \<open>The anchor of a derivative edit\<close>

lemma startY_fallback:
  assumes "functionPoints st = [] \<or>
     (\<exists>p. elem (functionPoints st) 0 = Some p \<and> (y p = NaN \<or> y p = Undefined))"
  shows "startY (functionPoints st) = Num 0"
  using assms by (auto simp: startY_def elem_def js_or_def)

lemma calculateIntegral_dense_Inr:
  assumes "dense ps"
  shows "\<exists>out. calculateIntegral ps C = Inr out \<and> length out = length ps"
proof (cases "ps = []")
  case True
  then show ?thesis by (simp add: calculateIntegral_def)
next
  case False
  from calculateIntegral_dense[OF assms False, of C]
  obtain p :: point and out where "calculateIntegral ps C =
       Inr (Some \<lparr>x = x p, y = (if C = Undefined then Num 0 else C)\<rparr> # out)"
     "length out = length ps - 1" by blast
  then show ?thesis using False by (cases ps) auto
qed

text \<open>
  C10, as stated, fails for a first \<open>y\<close> that is infinite, which is not a real number
  either: \<^verbatim>\<open>Infinity || 0\<close> is \<^verbatim>\<open>Infinity\<close>, so the anchor is not 0 and the new PRIMARY is
  not the integral from the constant 0.
\<close>

theorem derivative_edit_without_anchor_counterexample:
  "elem (functionPoints infinite_primary_state) 0 = Some \<lparr>x = Num 0, y = PosInf\<rparr> \<and>
   handleDerivativeDrag infinite_primary_state 1 (Num 3) =
     Inr (infinite_primary_state
           \<lparr>functionPoints := [Some \<lparr>x = Num 0, y = PosInf\<rparr>, Some \<lparr>x = Num 1, y = PosInf\<rparr>]\<rparr>) \<and>
   calculateIntegral (edit_point (derivativePoints infinite_primary_state) 1 (Num 3)) (Num 0) =
     Inr [Some \<lparr>x = Num 0, y = Num 0\<rparr>, Some \<lparr>x = Num 1, y = Num 2\<rparr>] \<and>
   [Some \<lparr>x = Num 0, y = PosInf\<rparr>, Some \<lparr>x = Num 1, y = PosInf\<rparr>] \<noteq>
     [Some \<lparr>x = Num 0, y = Num 0\<rparr>, Some \<lparr>x = Num 1, y = Num 2\<rparr>]"
  by (simp add: infinite_primary_state_def constant2_def handleDerivativeDrag_def edit_point_def
      array_set_def array_get_def spread_y_def startY_def js_or_def calculateIntegral_def
      seq_def elem_def integ_loop.simps Let_def)

text \<open>
  C10, amended. When the PRIMARY is empty, or the \<open>y\<close> of its first point is \<^verbatim>\<open>NaN\<close> or
  \<^verbatim>\<open>undefined\<close>, the anchor of a derivative edit is 0 and reading it does not fail: the
  handler returns what \<^verbatim>\<open>calculateIntegral\<close> returns on the modified DERIVATIVE with the
  constant 0, which is a sequence whenever the DERIVATIVE has no holes and the index lies
  inside it. When the \<open>y\<close> of the first point is \<^verbatim>\<open>Infinity\<close> or \<^verbatim>\<open>-Infinity\<close>, the anchor
  is that value and the handler returns what \<^verbatim>\<open>calculateIntegral\<close> returns with it.
\<close>

theorem derivative_edit_without_anchor:
  "(functionPoints st = [] \<or>
     (\<exists>p. elem (functionPoints st) 0 = Some p \<and> (y p = NaN \<or> y p = Undefined)) \<longrightarrow>
   startY (functionPoints st) = Num 0 \<and>
   handleDerivativeDrag st index newY =
     (case calculateIntegral (edit_point (derivativePoints st) index newY) (Num 0) of
        Inl e \<Rightarrow> Inl e
      | Inr r \<Rightarrow> Inr (st\<lparr>functionPoints := r\<rparr>)) \<and>
   (dense (derivativePoints st) \<and> 0 \<le> index \<and> index < int (length (derivativePoints st)) \<and>
    length (derivativePoints st) < 2 ^ 32 \<longrightarrow>
      (\<exists>r. calculateIntegral (edit_point (derivativePoints st) index newY) (Num 0) = Inr r \<and>
           handleDerivativeDrag st index newY = Inr (st\<lparr>functionPoints := r\<rparr>)))) \<and>
   (\<forall>p. elem (functionPoints st) 0 = Some p \<and> (y p = PosInf \<or> y p = NegInf) \<longrightarrow>
      startY (functionPoints st) = y p \<and>
      handleDerivativeDrag st index newY =
        (case calculateIntegral (edit_point (derivativePoints st) index newY) (y p) of
           Inl e \<Rightarrow> Inl e
         | Inr r \<Rightarrow> Inr (st\<lparr>functionPoints := r\<rparr>)))"
proof (intro impI conjI allI)
  assume a: "functionPoints st = [] \<or>
     (\<exists>p. elem (functionPoints st) 0 = Some p \<and> (y p = NaN \<or> y p = Undefined))"
  show sy: "startY (functionPoints st) = Num 0" by (rule startY_fallback[OF a])
  show eq: "handleDerivativeDrag st index newY =
     (case calculateIntegral (edit_point (derivativePoints st) index newY) (Num 0) of
        Inl e \<Rightarrow> Inl e
      | Inr r \<Rightarrow> Inr (st\<lparr>functionPoints := r\<rparr>))"
    by (simp add: handleDerivativeDrag_def Let_def sy)
  assume b: "dense (derivativePoints st) \<and> 0 \<le> index \<and> index < int (length (derivativePoints st)) \<and>
    length (derivativePoints st) < 2 ^ 32"
  then have "dense (edit_point (derivativePoints st) index newY)"
    by (simp add: edit_point_in_range dense_list_update)
  from calculateIntegral_dense_Inr[OF this, of "Num 0"]
  obtain r where "calculateIntegral (edit_point (derivativePoints st) index newY) (Num 0) = Inr r"
    by blast
  then show "\<exists>r. calculateIntegral (edit_point (derivativePoints st) index newY) (Num 0) = Inr r \<and>
           handleDerivativeDrag st index newY = Inr (st\<lparr>functionPoints := r\<rparr>)"
    by (simp add: eq)
next
  fix p
  assume c: "elem (functionPoints st) 0 = Some p \<and> (y p = PosInf \<or> y p = NegInf)"
  then show sy: "startY (functionPoints st) = y p"
    by (auto simp: startY_def js_or_def)
  show "handleDerivativeDrag st index newY =
        (case calculateIntegral (edit_point (derivativePoints st) index newY) (y p) of
           Inl e \<Rightarrow> Inl e
         | Inr r \<Rightarrow> Inr (st\<lparr>functionPoints := r\<rparr>))"
    by (simp add: handleDerivativeDrag_def Let_def sy)
qed

theorem derivative_edit_without_anchor_witness:
  "functionPoints empty_primary_state = [] \<and>
   dense (derivativePoints empty_primary_state) \<and> (0::int) \<le> 1 \<and>
   1 < int (length (derivativePoints empty_primary_state)) \<and>
   length (derivativePoints empty_primary_state) < 2 ^ 32 \<and>
   startY (functionPoints empty_primary_state) = Num 0 \<and>
   calculateIntegral (edit_point (derivativePoints empty_primary_state) 1 (Num 3)) (Num 0) =
     Inr (seq [(0, 0), (1, 2)]) \<and>
   handleDerivativeDrag empty_primary_state 1 (Num 3) =
     Inr (empty_primary_state\<lparr>functionPoints := seq [(0, 0), (1, 2)]\<rparr>) \<and>
   elem (functionPoints infinite_primary_state) 0 = Some \<lparr>x = Num 0, y = PosInf\<rparr> \<and>
   startY (functionPoints infinite_primary_state) = PosInf \<and>
   handleDerivativeDrag infinite_primary_state 1 (Num 3) =
     (case calculateIntegral (edit_point (derivativePoints infinite_primary_state) 1 (Num 3)) PosInf of
        Inl e \<Rightarrow> Inl e
      | Inr r \<Rightarrow> Inr (infinite_primary_state\<lparr>functionPoints := r\<rparr>))"
proof -
  have h: "functionPoints empty_primary_state = []"
    "dense (derivativePoints empty_primary_state) \<and> (0::int) \<le> 1 \<and>
     1 < int (length (derivativePoints empty_primary_state)) \<and>
     length (derivativePoints empty_primary_state) < 2 ^ 32"
    by (simp_all add: empty_primary_state_def constant2_def dense_seq)
  have c: "calculateIntegral (edit_point (derivativePoints empty_primary_state) 1 (Num 3)) (Num 0) =
     Inr (seq [(0, 0), (1, 2)])"
    by (simp add: empty_primary_state_def constant2_def edit_point_def array_set_def array_get_def
        spread_y_def calculateIntegral_def seq_def elem_def integ_loop.simps Let_def)
  have k: "elem (functionPoints infinite_primary_state) 0 = Some \<lparr>x = Num 0, y = PosInf\<rparr>"
    by (simp add: infinite_primary_state_def elem_def)
  from derivative_edit_without_anchor[of empty_primary_state 1 "Num 3"]
    derivative_edit_without_anchor[of infinite_primary_state 1 "Num 3"] h c k
  show ?thesis by auto
qed

section \<open>Edits outside the array\<close>

lemma error_TypeError: "(e::error) = TypeError"
  by (cases e) simp

lemma integ_loop_hole:
  assumes "elem ps m = None" "m < length ps"
  shows "1 \<le> i \<Longrightarrow> i \<le> m \<Longrightarrow> integ_loop ps i a acc = Inl TypeError"
proof (induction "m - i" arbitrary: i a acc)
  case 0
  then have "i = m" by simp
  then show ?case using assms by (subst integ_loop.simps) simp
next
  case (Suc n)
  then have lt: "i < m" "i < length ps" using assms(2) by simp_all
  have IH: "integ_loop ps (Suc i) a' acc' = Inl TypeError" for a' acc'
    using Suc(1)[of "Suc i" a' acc'] Suc(2) lt by simp
  show ?case
    using lt(2) by (subst integ_loop.simps) (simp add: IH Let_def split: option.split)
qed

lemma calculateIntegral_hole:
  assumes "elem ps m = None" "m < length ps"
  shows "calculateIntegral ps C = Inl TypeError"
proof (cases "m = 0")
  case True
  then show ?thesis using assms by (simp add: calculateIntegral_def Let_def)
next
  case False
  then have "integ_loop ps 1 a acc = Inl TypeError" for a acc
    using integ_loop_hole[OF assms, of 1 a acc] by simp
  moreover have "ps \<noteq> []" using assms(2) by auto
  ultimately show ?thesis
    by (simp add: calculateIntegral_def Let_def split: option.split)
qed

lemma deriv_loop_hole:
  assumes "elem ps m = None" "m < length ps"
  shows "i \<le> m \<Longrightarrow> deriv_loop ps i acc = Inl TypeError"
proof (induction "m - i" arbitrary: i acc)
  case 0
  then have "i = m" by simp
  then show ?case using assms
    by (subst deriv_loop.simps) (simp add: error_TypeError split: sum.split)
next
  case (Suc n)
  then have lt: "i < m" "i < length ps" using assms(2) by simp_all
  have IH: "deriv_loop ps (Suc i) acc' = Inl TypeError" for acc'
    using Suc(1)[of "Suc i" acc'] Suc(2) lt by simp
  show ?case
    using lt(2) by (subst deriv_loop.simps) (simp add: IH error_TypeError split: sum.split option.split)
qed

lemma calculateDerivative_hole:
  assumes "elem ps m = None" "m < length ps" "2 \<le> length ps"
  shows "calculateDerivative ps = Inl TypeError"
  using deriv_loop_hole[OF assms(1,2), of 0 "[]"] assms(3) by (simp add: calculateDerivative_def)

lemma calculateDerivative_dense_Inr:
  assumes "dense ps"
  shows "\<exists>out. calculateDerivative ps = Inr out"
proof (cases "length ps < 2")
  case True
  then show ?thesis by (simp add: calculateDerivative_def)
next
  case False
  then have "2 \<le> length ps" by simp
  from deriv_loop_dense[OF assms this, of 0 "[]"] False
  show ?thesis by (auto simp: calculateDerivative_def)
qed

lemma edit_point_not_index:
  "index < 0 \<or> 4294967295 \<le> index \<Longrightarrow> edit_point ps index newY = ps"
  by (auto simp: edit_point_def array_set_def)

lemma edit_point_beyond:
  assumes "int (length ps) \<le> index" "index < 4294967295"
  shows "edit_point ps index newY =
    ps @ replicate (nat index - length ps) None @ [Some \<lparr>x = Undefined, y = newY\<rparr>]"
proof -
  have "\<not> nat index < length ps" "0 \<le> index" using assms(1) by linarith+
  moreover from this have "array_get ps index = None"
    by (simp add: array_get_def elem_def)
  ultimately show ?thesis using assms(2)
    by (simp add: edit_point_def array_set_def spread_y_def)
qed

lemma edit_point_hole:
  assumes "int (length ps) < index" "index < 4294967295"
  shows "elem (edit_point ps index newY) (length ps) = None \<and>
         length ps < length (edit_point ps index newY) \<and>
         2 \<le> length (edit_point ps index newY)"
proof -
  have "0 < nat index - length ps" using assms(1) by linarith
  then show ?thesis using assms
    by (simp add: edit_point_beyond elem_def nth_append)
qed

lemma dense_append_Some: "dense ps \<Longrightarrow> dense (ps @ [Some v])"
  by (simp add: dense_def)

text \<open>
  C6, as stated, fails: no handler checks the index. An edit to PRIMARY at index 3 of a
  three-point sequence returns the sequence with a fourth point that has no \<open>x\<close>, and a
  derivative edit at index \<open>-1\<close> returns the integral of the unmodified DERIVATIVE.
\<close>

theorem out_of_range_edit_counterexample:
  "\<not> (0 \<le> (3::int) \<and> 3 < int (length (functionPoints parabola_state))) \<and>
   handleFunctionDrag parabola_state 3 (Num 7) =
     Inr (parabola_state\<lparr>functionPoints := seq parabola3 @ [Some \<lparr>x = Undefined, y = Num 7\<rparr>]\<rparr>) \<and>
   \<not> (0 \<le> (- 1::int) \<and> - 1 < int (length (derivativePoints parabola_state))) \<and>
   handleDerivativeDrag parabola_state (- 1) (Num 7) =
     Inr (parabola_state\<lparr>functionPoints := seq [(0, 0), (1, 3 / 2), (2, 4)]\<rparr>)"
  by (simp add: parabola_state_def parabola3_def handleFunctionDrag_def handleDerivativeDrag_def
      edit_point_def array_set_def array_get_def spread_y_def startY_def js_or_def
      calculateIntegral_def seq_def elem_def integ_loop.simps Let_def)

text \<open>
  C6, amended. For an index outside the edited array:
  the PRIMARY handler never signals an error; for an index that is negative or not below
  \<open>2^32 - 1\<close> it stores the same elements, otherwise the array grown to \<open>index + 1\<close>
  entries, with holes between the old end and the new point, which has the new \<open>y\<close> and no
  \<open>x\<close>. The DERIVATIVE and ANTIDERIVATIVE handlers signal a TypeError when the index is
  beyond the length (and below \<open>2^32 - 1\<close>), because the engine reads the hole; at the
  index equal to the length, and at an index that is negative or not below \<open>2^32 - 1\<close>,
  they return without an error the PRIMARY that the engine computes from the array
  extended by the point with the new \<open>y\<close> and no \<open>x\<close>, or from the unmodified array (the
  array having no holes).
\<close>

theorem out_of_range_edit:
  "(index < 0 \<or> 4294967295 \<le> index \<longrightarrow>
      handleFunctionDrag st index newY = Inr st \<and>
      (dense (derivativePoints st) \<longrightarrow>
         (\<exists>r. calculateIntegral (derivativePoints st) (startY (functionPoints st)) = Inr r \<and>
              handleDerivativeDrag st index newY = Inr (st\<lparr>functionPoints := r\<rparr>))) \<and>
      (dense (integralPoints st) \<longrightarrow>
         (\<exists>r. calculateDerivative (integralPoints st) = Inr r \<and>
              handleIntegralDrag st index newY = Inr (st\<lparr>functionPoints := r\<rparr>)))) \<and>
   (index < 4294967295 \<longrightarrow>
      (int (length (functionPoints st)) \<le> index \<longrightarrow>
         handleFunctionDrag st index newY =
           Inr (st\<lparr>functionPoints :=
                  functionPoints st @ replicate (nat index - length (functionPoints st)) None @
                  [Some \<lparr>x = Undefined, y = newY\<rparr>]\<rparr>)) \<and>
      (index = int (length (derivativePoints st)) \<and> dense (derivativePoints st) \<longrightarrow>
         (\<exists>r. calculateIntegral (derivativePoints st @ [Some \<lparr>x = Undefined, y = newY\<rparr>])
                (startY (functionPoints st)) = Inr r \<and>
              length r = length (derivativePoints st) + 1 \<and>
              handleDerivativeDrag st index newY = Inr (st\<lparr>functionPoints := r\<rparr>))) \<and>
      (int (length (derivativePoints st)) < index \<longrightarrow>
         handleDerivativeDrag st index newY = Inl TypeError) \<and>
      (index = int (length (integralPoints st)) \<and> dense (integralPoints st) \<longrightarrow>
         (\<exists>r. calculateDerivative (integralPoints st @ [Some \<lparr>x = Undefined, y = newY\<rparr>]) = Inr r \<and>
              handleIntegralDrag st index newY = Inr (st\<lparr>functionPoints := r\<rparr>))) \<and>
      (int (length (integralPoints st)) < index \<longrightarrow>
         handleIntegralDrag st index newY = Inl TypeError))"
proof (intro conjI impI)
  assume a: "index < 0 \<or> 4294967295 \<le> index"
  show "handleFunctionDrag st index newY = Inr st"
    by (simp add: handleFunctionDrag_def edit_point_not_index[OF a])
  show "\<exists>r. calculateIntegral (derivativePoints st) (startY (functionPoints st)) = Inr r \<and>
              handleDerivativeDrag st index newY = Inr (st\<lparr>functionPoints := r\<rparr>)"
    if "dense (derivativePoints st)"
    using calculateIntegral_dense_Inr[OF that, of "startY (functionPoints st)"]
    by (auto simp: handleDerivativeDrag_def edit_point_not_index[OF a])
  show "\<exists>r. calculateDerivative (integralPoints st) = Inr r \<and>
              handleIntegralDrag st index newY = Inr (st\<lparr>functionPoints := r\<rparr>)"
    if "dense (integralPoints st)"
    using calculateDerivative_dense_Inr[OF that]
    by (auto simp: handleIntegralDrag_def edit_point_not_index[OF a])
next
  assume b: "index < 4294967295"
  show "handleFunctionDrag st index newY =
           Inr (st\<lparr>functionPoints :=
                  functionPoints st @ replicate (nat index - length (functionPoints st)) None @
                  [Some \<lparr>x = Undefined, y = newY\<rparr>]\<rparr>)"
    if "int (length (functionPoints st)) \<le> index"
    by (simp add: handleFunctionDrag_def edit_point_beyond[OF that b])
  show "\<exists>r. calculateIntegral (derivativePoints st @ [Some \<lparr>x = Undefined, y = newY\<rparr>])
                (startY (functionPoints st)) = Inr r \<and>
              length r = length (derivativePoints st) + 1 \<and>
              handleDerivativeDrag st index newY = Inr (st\<lparr>functionPoints := r\<rparr>)"
    if h: "index = int (length (derivativePoints st)) \<and> dense (derivativePoints st)"
  proof -
    from h have le: "int (length (derivativePoints st)) \<le> index" by simp
    have e: "edit_point (derivativePoints st) index newY =
        derivativePoints st @ [Some \<lparr>x = Undefined, y = newY\<rparr>]"
      using edit_point_beyond[OF le b, of newY] h by simp
    have "dense (derivativePoints st @ [Some \<lparr>x = Undefined, y = newY\<rparr>])"
      using h by (simp add: dense_append_Some)
    from calculateIntegral_dense_Inr[OF this, of "startY (functionPoints st)"]
    show ?thesis by (auto simp: handleDerivativeDrag_def e)
  qed
  show "handleDerivativeDrag st index newY = Inl TypeError"
    if h: "int (length (derivativePoints st)) < index"
  proof -
    from edit_point_hole[OF h b, of newY]
    have "calculateIntegral (edit_point (derivativePoints st) index newY) (startY (functionPoints st))
        = Inl TypeError"
      by (intro calculateIntegral_hole[of _ "length (derivativePoints st)"]) simp_all
    then show ?thesis by (simp add: handleDerivativeDrag_def)
  qed
  show "\<exists>r. calculateDerivative (integralPoints st @ [Some \<lparr>x = Undefined, y = newY\<rparr>]) = Inr r \<and>
              handleIntegralDrag st index newY = Inr (st\<lparr>functionPoints := r\<rparr>)"
    if h: "index = int (length (integralPoints st)) \<and> dense (integralPoints st)"
  proof -
    from h have le: "int (length (integralPoints st)) \<le> index" by simp
    have e: "edit_point (integralPoints st) index newY =
        integralPoints st @ [Some \<lparr>x = Undefined, y = newY\<rparr>]"
      using edit_point_beyond[OF le b, of newY] h by simp
    have "dense (integralPoints st @ [Some \<lparr>x = Undefined, y = newY\<rparr>])"
      using h by (simp add: dense_append_Some)
    from calculateDerivative_dense_Inr[OF this]
    show ?thesis by (auto simp: handleIntegralDrag_def e)
  qed
  show "handleIntegralDrag st index newY = Inl TypeError"
    if h: "int (length (integralPoints st)) < index"
  proof -
    from edit_point_hole[OF h b, of newY]
    have "calculateDerivative (edit_point (integralPoints st) index newY) = Inl TypeError"
      by (intro calculateDerivative_hole[of _ "length (integralPoints st)"]) simp_all
    then show ?thesis by (simp add: handleIntegralDrag_def)
  qed
qed

theorem out_of_range_edit_witness:
  "(- 1::int) < 0 \<and> dense (derivativePoints parabola_state) \<and> dense (integralPoints parabola_state) \<and>
   handleFunctionDrag parabola_state (- 1) (Num 7) = Inr parabola_state \<and>
   handleDerivativeDrag parabola_state (- 1) (Num 7) =
     Inr (parabola_state\<lparr>functionPoints := seq [(0, 0), (1, 3 / 2), (2, 4)]\<rparr>) \<and>
   handleIntegralDrag parabola_state (- 1) (Num 7) =
     Inr (parabola_state\<lparr>functionPoints := seq [(0, 1 / 2), (1, 3 / 2), (2, 5 / 2)]\<rparr>) \<and>
   (3::int) < 4294967295 \<and> int (length (functionPoints parabola_state)) \<le> 3 \<and>
   3 = int (length (derivativePoints parabola_state)) \<and>
   3 = int (length (integralPoints parabola_state)) \<and>
   handleFunctionDrag parabola_state 3 (Num 7) =
     Inr (parabola_state\<lparr>functionPoints := seq parabola3 @ [Some \<lparr>x = Undefined, y = Num 7\<rparr>]\<rparr>) \<and>
   handleDerivativeDrag parabola_state 3 (Num 7) =
     Inr (parabola_state\<lparr>functionPoints :=
        seq [(0, 0), (1, 3 / 2), (2, 4)] @ [Some \<lparr>x = Undefined, y = NaN\<rparr>]\<rparr>) \<and>
   handleIntegralDrag parabola_state 3 (Num 7) =
     Inr (parabola_state\<lparr>functionPoints :=
        seq [(0, 1 / 2), (1, 3 / 2)] @
        [Some \<lparr>x = Num 2, y = NaN\<rparr>, Some \<lparr>x = Undefined, y = NaN\<rparr>]\<rparr>) \<and>
   (5::int) < 4294967295 \<and> int (length (derivativePoints parabola_state)) < 5 \<and>
   int (length (integralPoints parabola_state)) < 5 \<and>
   handleFunctionDrag parabola_state 5 (Num 7) =
     Inr (parabola_state\<lparr>functionPoints :=
        seq parabola3 @ [None, None, Some \<lparr>x = Undefined, y = Num 7\<rparr>]\<rparr>) \<and>
   handleDerivativeDrag parabola_state 5 (Num 7) = Inl TypeError \<and>
   handleIntegralDrag parabola_state 5 (Num 7) = Inl TypeError"
proof -
  have d: "dense (derivativePoints parabola_state)" "dense (integralPoints parabola_state)"
    by (simp_all add: parabola_state_def dense_seq)
  have l: "length (functionPoints parabola_state) = 3" "length (derivativePoints parabola_state) = 3"
    "length (integralPoints parabola_state) = 3" "functionPoints parabola_state = seq parabola3"
    by (simp_all add: parabola_state_def parabola3_def)
  have r: "length parabola3 = 3" "replicate 2 None = [None, None :: point option]"
    by (simp_all add: parabola3_def numeral_2_eq_2)
  have c1: "calculateIntegral (derivativePoints parabola_state) (startY (seq parabola3)) =
      Inr (seq [(0, 0), (1, 3 / 2), (2, 4)])"
    by (simp add: parabola_state_def parabola3_def startY_def js_or_def calculateIntegral_def
        seq_def elem_def integ_loop.simps Let_def)
  have c2: "calculateDerivative (integralPoints parabola_state) =
      Inr (seq [(0, 1 / 2), (1, 3 / 2), (2, 5 / 2)])"
    by (simp add: parabola_state_def calculateDerivative_def seq_def elem_def deriv_loop.simps
        slope_at_def)
  have c3: "calculateIntegral (derivativePoints parabola_state @ [Some \<lparr>x = Undefined, y = Num 7\<rparr>])
      (startY (seq parabola3)) =
      Inr (seq [(0, 0), (1, 3 / 2), (2, 4)] @ [Some \<lparr>x = Undefined, y = NaN\<rparr>])"
    by (simp add: parabola_state_def parabola3_def startY_def js_or_def calculateIntegral_def
        seq_def elem_def integ_loop.simps Let_def minus_jsval_def)
  have c4: "calculateDerivative (integralPoints parabola_state @ [Some \<lparr>x = Undefined, y = Num 7\<rparr>]) =
      Inr (seq [(0, 1 / 2), (1, 3 / 2)] @
        [Some \<lparr>x = Num 2, y = NaN\<rparr>, Some \<lparr>x = Undefined, y = NaN\<rparr>])"
    by (simp add: parabola_state_def calculateDerivative_def seq_def elem_def deriv_loop.simps
        slope_at_def minus_jsval_def)
  show ?thesis
    using out_of_range_edit[of "- 1" parabola_state "Num 7"]
      out_of_range_edit[of 3 parabola_state "Num 7"]
      out_of_range_edit[of 5 parabola_state "Num 7"] d
    by (auto simp: l r c1 c2 c3 c4)
qed

section \<open>Properties of generateFunctionPoints\<close>




lemma scenario_sampling_parabola:
  "generateFunctionPoints (\<lambda>v. v * v) (Num 0) (Num 2) (Num 3) = Some (seq parabola3)"
  by (simp add: generateFunctionPoints_def gen_loop.simps parabola3_def seq_def)

lemma scenario_sampling_single:
  "generateFunctionPoints (\<lambda>v. v) (Num 0) (Num 2) (Num 1) = Some [Some \<lparr>x = NaN, y = NaN\<rparr>]"
  by (simp add: generateFunctionPoints_def gen_loop.simps)



end
